theory Spec2Isabelle
  imports Complex_Main "HOL-Library.Sublist" "HOL-Library.Multiset"
begin

section \<open>JavaScript values used by the classifiers\<close>

text \<open>
  The classifiers of \<^verbatim>\<open>App.jsx\<close> receive what \<^verbatim>\<open>parseCSV\<close> produced: \<^verbatim>\<open>null\<close> (no file
  loaded) or an array of row objects whose property values are strings. A row is a partial
  map from column names to strings (\<open>None\<close> is JavaScript's \<^verbatim>\<open>undefined\<close>), the input of a
  classifier is \<open>None\<close> for \<^verbatim>\<open>null\<close> and \<open>Some rows\<close> for an array.

  Strings are lists of 8-bit characters and stand for ASCII text. \<open>toLowerCase\<close>
  maps the letters \<^verbatim>\<open>A\<close>..\<^verbatim>\<open>Z\<close> to \<^verbatim>\<open>a\<close>..\<^verbatim>\<open>z\<close> and leaves every other character alone,
  which is what \<^verbatim>\<open>String.prototype.toLowerCase\<close> does on ASCII text; the white space
  that \<^verbatim>\<open>parseInt\<close> skips is the ASCII white space.
\<close>

type_synonym row = "string \<rightharpoonup> string"

definition toLowerChar :: "char \<Rightarrow> char" where
  "toLowerChar c =
     (case map_of (zip ''ABCDEFGHIJKLMNOPQRSTUVWXYZ'' ''abcdefghijklmnopqrstuvwxyz'') c of
        None \<Rightarrow> c
      | Some l \<Rightarrow> l)"

definition toLowerCase :: "string \<Rightarrow> string" where
  "toLowerCase s = map toLowerChar s"

text \<open>\<^verbatim>\<open>s.includes(n)\<close>: \<open>n\<close> occurs in \<open>s\<close> as a contiguous substring.\<close>

fun js_includes :: "string \<Rightarrow> string \<Rightarrow> bool" where
  "js_includes [] n = (n = [])"
| "js_includes (c # cs) n = (prefix n (c # cs) \<or> js_includes cs n)"

text \<open>\<^verbatim>\<open>x || d\<close> on a string property: \<^verbatim>\<open>undefined\<close> and the empty string are falsy.\<close>

definition orElse :: "string option \<Rightarrow> string \<Rightarrow> string" where
  "orElse x d = (case x of None \<Rightarrow> d | Some s \<Rightarrow> if s = [] then d else s)"

text \<open>A property inside a template literal: \<^verbatim>\<open>undefined\<close> prints as the word itself.\<close>

definition template :: "string option \<Rightarrow> string" where
  "template x = (case x of None \<Rightarrow> ''undefined'' | Some s \<Rightarrow> s)"

text \<open>
  A JavaScript number that may be \<^verbatim>\<open>NaN\<close>: \<open>None\<close> is \<^verbatim>\<open>NaN\<close>. Every comparison with
  \<^verbatim>\<open>NaN\<close> is false.
\<close>

definition num_le :: "'a::linorder option \<Rightarrow> 'a \<Rightarrow> bool" where
  "num_le x b = (case x of None \<Rightarrow> False | Some v \<Rightarrow> v \<le> b)"

definition num_gt :: "'a::linorder option \<Rightarrow> 'a option \<Rightarrow> bool" where
  "num_gt x y = (case (x, y) of (Some a, Some b) \<Rightarrow> a > b | _ \<Rightarrow> False)"

subsection \<open>\<^verbatim>\<open>parseInt\<close> with no radix argument\<close>

definition isWhiteSpace :: "char \<Rightarrow> bool" where
  "isWhiteSpace c = (c \<in> set [CHR 0x09, CHR 0x0A, CHR 0x0B, CHR 0x0C, CHR 0x0D, CHR 0x20])"

definition digitValue :: "char \<Rightarrow> nat" where
  "digitValue c =
     (case map_of (zip ''0123456789abcdef'' [0 ..< 16]) (toLowerChar c) of
        None \<Rightarrow> 16
      | Some d \<Rightarrow> d)"

text \<open>
  Leading white space is skipped, then an optional sign, then an optional \<^verbatim>\<open>0x\<close> that
  selects radix 16; the longest run of digits of the radix is the value and an empty run
  gives \<^verbatim>\<open>NaN\<close>. Whatever follows the digits is ignored. The value is kept exact; the
  double the engine returns for a long run of digits compares with 50 in the same way.
\<close>

definition parseInt :: "string \<Rightarrow> int option" where
  "parseInt inputString =
     (let S = dropWhile isWhiteSpace inputString;
          sign = (if take 1 S = ''-'' then - 1 else 1 :: int);
          S1 = (if take 1 S = ''+'' \<or> take 1 S = ''-'' then drop 1 S else S);
          hex = (take 2 S1 = ''0x'' \<or> take 2 S1 = ''0X'');
          R = (if hex then 16 else 10 :: nat);
          S2 = (if hex then drop 2 S1 else S1);
          Z = takeWhile (\<lambda>c. digitValue c < R) S2
      in if Z = [] then None
         else Some (sign * int (foldl (\<lambda>acc c. acc * R + digitValue c) 0 Z)))"

section \<open>Verdicts\<close>

datatype severity = UNKNOWN | LOW | MEDIUM | HIGH | CRITICAL

record finding =
  ftype :: severity
  title :: string
  desc :: string
  impact :: string

record verdict =
  risk :: severity
  findings :: "finding list"

section \<open>SQL classifier\<close>

text \<open>
  \<^verbatim>\<open>parseInt(row.Priority || 999)\<close>: the number 999 is converted to the string \<^verbatim>\<open>999\<close>
  before it is parsed.
\<close>

definition sqlPriority :: "row \<Rightarrow> int option" where
  "sqlPriority r = parseInt (orElse (r ''Priority'') ''999'')"

definition sqlFindingText :: "row \<Rightarrow> string" where
  "sqlFindingText r = toLowerCase (orElse (r ''Finding'') '''')"

text \<open>
  The body of the \<^verbatim>\<open>forEach\<close> callback of \<^verbatim>\<open>analyzeSQL\<close>: the state is the pair of the
  two variables the callback assigns, \<^verbatim>\<open>riskLevel\<close> and \<^verbatim>\<open>findings\<close>.
\<close>

definition sqlRow :: "severity \<times> finding list \<Rightarrow> row \<Rightarrow> severity \<times> finding list" where
  "sqlRow st r =
     (let riskLevel = fst st; fs = snd st;
          priority = sqlPriority r;
          findingText = sqlFindingText r;
          details = orElse (r ''Details'') '''';
          dbName = orElse (r ''DatabaseName'') ''Unknown''
      in if num_le priority 50 then
           if js_includes findingText ''backups not performed'' then
             (CRITICAL,
              fs @ [\<lparr>ftype = CRITICAL,
                     title = ''No Backups: '' @ dbName,
                     desc = ''Database '' @ [CHR 0x27] @ dbName @ [CHR 0x27]
                            @ '' has not been backed up recently. '' @ details,
                     impact = ''Total data loss of recent transactions in event of crash.''\<rparr>])
           else if js_includes findingText ''corruption check'' then
             (if riskLevel \<noteq> CRITICAL then HIGH else riskLevel,
              fs @ [\<lparr>ftype = HIGH,
                     title = ''Corruption Risk: '' @ dbName,
                     desc = ''DBCC CHECKDB never run on '' @ [CHR 0x27] @ dbName @ [CHR 0x27]
                            @ ''.'',
                     impact = ''Database may contain silent corruption making backups useless.''\<rparr>])
           else
             (if riskLevel = LOW then MEDIUM else riskLevel,
              fs @ [\<lparr>ftype = MEDIUM,
                     title = ''Config Issue: '' @ findingText,
                     desc = details,
                     impact = ''Performance or stability risk.''\<rparr>])
         else st)"

definition analyzeSQL :: "row list option \<Rightarrow> verdict" where
  "analyzeSQL data =
     (case data of
        None \<Rightarrow> \<lparr>risk = UNKNOWN, findings = []\<rparr>
      | Some rows \<Rightarrow>
          if length rows = 0 then \<lparr>risk = UNKNOWN, findings = []\<rparr>
          else (let st = foldl sqlRow (LOW, []) rows
                in \<lparr>risk = fst st, findings = snd st\<rparr>))"

text \<open>The three conditions the callback tests on a row, named for the statements below.\<close>

definition sqlActionable :: "row \<Rightarrow> bool" where
  "sqlActionable r = num_le (sqlPriority r) 50"

definition sqlNoBackups :: "row \<Rightarrow> bool" where
  "sqlNoBackups r = js_includes (sqlFindingText r) ''backups not performed''"

definition sqlCorruption :: "row \<Rightarrow> bool" where
  "sqlCorruption r = js_includes (sqlFindingText r) ''corruption check''"

section \<open>AD classifier\<close>

definition redFlagKeywords :: "string list" where
  "redFlagKeywords =
     [''temp'', ''scanner'', ''backup'', ''service'', ''test'', ''msp'', ''vendor'',
      ''printer'', ''copy'']"

definition adGroup :: "row \<Rightarrow> string" where
  "adGroup r = toLowerCase (orElse (r ''GroupName'') '''')"

text \<open>\<^verbatim>\<open>combinedSearch\<close>: the lowered name, one space, the lowered account name.\<close>

definition adCombinedSearch :: "row \<Rightarrow> string" where
  "adCombinedSearch r =
     (let name = toLowerCase (orElse (r ''Name'') '''');
          sam = toLowerCase (orElse (r ''SamAccountName'') '''')
      in name @ '' '' @ sam)"

text \<open>The inner \<^verbatim>\<open>forEach\<close> over the keywords, which sets the flag \<^verbatim>\<open>isRedFlag\<close>.\<close>

definition adIsRedFlag :: "string \<Rightarrow> bool" where
  "adIsRedFlag combinedSearch =
     foldl (\<lambda>isRedFlag keyword. if js_includes combinedSearch keyword then True else isRedFlag)
       False redFlagKeywords"

definition adFinding :: "row \<Rightarrow> finding" where
  "adFinding r =
     \<lparr>ftype = CRITICAL,
      title = ''Unsecured Admin: '' @ template (r ''SamAccountName''),
      desc = ''Account '' @ [CHR 0x27] @ template (r ''Name'') @ [CHR 0x27] @ '' is in ''
             @ [CHR 0x27] @ template (r ''GroupName'') @ [CHR 0x27]
             @ ''. This appears to be a service or generic account.'',
      impact = ''High risk of credential theft. Service accounts should not be Domain Admins.''\<rparr>"

definition adRow :: "severity \<times> finding list \<Rightarrow> row \<Rightarrow> severity \<times> finding list" where
  "adRow st r =
     (let fs = snd st;
          group = adGroup r;
          combinedSearch = adCombinedSearch r
      in if js_includes group ''admin'' then
           if adIsRedFlag combinedSearch then (CRITICAL, fs @ [adFinding r]) else st
         else st)"

definition analyzeAD :: "row list option \<Rightarrow> verdict" where
  "analyzeAD data =
     (case data of
        None \<Rightarrow> \<lparr>risk = UNKNOWN, findings = []\<rparr>
      | Some rows \<Rightarrow>
          if length rows = 0 then \<lparr>risk = UNKNOWN, findings = []\<rparr>
          else (let st = foldl adRow (LOW, []) rows
                in \<lparr>risk = fst st, findings = snd st\<rparr>))"

text \<open>The condition under which the callback of \<^verbatim>\<open>analyzeAD\<close> pushes a finding.\<close>

definition adMatches :: "row \<Rightarrow> bool" where
  "adMatches r =
     (js_includes (adGroup r) ''admin''
      \<and> (\<exists>keyword\<in>set redFlagKeywords. js_includes (adCombinedSearch r) keyword))"

section \<open>Backup classifier\<close>

text \<open>
  A \<^verbatim>\<open>Date\<close> object is its time value, an integral number of milliseconds, \<open>None\<close> for
  an invalid date. \<^verbatim>\<open>new Date(timeStr)\<close> depends on the engine's date parser, which is a
  parameter \<open>parseDate\<close> of the classifier, and \<^verbatim>\<open>new Date()\<close> is the parameter \<open>now\<close>.

  The gap in hours is kept as the exact quotient, \<open>None\<close> for \<^verbatim>\<open>NaN\<close>. The engine
  computes the nearest double; as the difference is a whole number of milliseconds and
  rounding is monotone, the double exceeds 24 exactly when the quotient does.
\<close>

type_synonym jsdate = "int option"

datatype bstatus = PASS | FAIL | UNKNOWN_STATUS

record cleanRow =
  date :: jsdate
  message :: string
  original :: row

record backupVerdict =
  status :: bstatus
  gap :: "real option"
  lastSuccess :: "jsdate option"
  latestLog :: "jsdate option"
  failCount :: nat

text \<open>Subtraction of two numbers either of which may be \<^verbatim>\<open>NaN\<close>.\<close>

definition num_sub :: "int option \<Rightarrow> int option \<Rightarrow> int option" where
  "num_sub x y = (case (x, y) of (Some a, Some b) \<Rightarrow> Some (a - b) | _ \<Rightarrow> None)"

text \<open>
  \<^verbatim>\<open>Array.prototype.sort\<close> with a comparator. The language fixes the result when the
  comparator is consistent on the elements: the stable sort. It is not consistent when a
  date is invalid, and then the order is left to the engine. The definition follows the
  sort of V8 for an array of fewer than 64 elements: the comparator result \<^verbatim>\<open>NaN\<close> is
  read as \<open>0\<close>, the longest initial run (non-descending, or strictly descending and then
  reversed) is kept, and each later element is put into place by binary insertion. For
  longer arrays V8 merges several such runs, and other engines sort differently; all of
  them return the stable sort computed here when every date is valid, and a permutation
  of the input in any case, which is all that the proofs below use of the sorted array.
\<close>

definition sortCompare :: "('a \<Rightarrow> 'a \<Rightarrow> int option) \<Rightarrow> 'a \<Rightarrow> 'a \<Rightarrow> int" where
  "sortCompare cmp x y = (case cmp x y of None \<Rightarrow> 0 | Some v \<Rightarrow> v)"

fun countRun :: "('a \<Rightarrow> 'a \<Rightarrow> int) \<Rightarrow> bool \<Rightarrow> 'a \<Rightarrow> 'a list \<Rightarrow> nat" where
  "countRun c isDescending previousElement [] = 0"
| "countRun c isDescending previousElement (currentElement # rest) =
     (let order = c currentElement previousElement
      in if (if isDescending then order \<ge> 0 else order < 0) then 0
         else Suc (countRun c isDescending currentElement rest))"

definition countAndMakeRun :: "('a \<Rightarrow> 'a \<Rightarrow> int) \<Rightarrow> 'a list \<Rightarrow> 'a list \<times> 'a list" where
  "countAndMakeRun c xs =
     (case xs of
        [] \<Rightarrow> ([], [])
      | [x] \<Rightarrow> ([x], [])
      | elementHigh # elementLow # rest \<Rightarrow>
          (let isDescending = (c elementLow elementHigh < 0);
               runLength = 2 + countRun c isDescending elementLow rest;
               run = take runLength xs
           in (if isDescending then rev run else run, drop runLength xs)))"

text \<open>
  The insertion point of \<open>pivot\<close> in the sorted prefix \<open>a\<close>, searched between \<open>left\<close> and
  \<open>right\<close>; the index \<open>mid\<close> stays below \<open>right\<close>, which starts as the length of \<open>a\<close>.
\<close>

function binarySearch :: "('a \<Rightarrow> 'a \<Rightarrow> int) \<Rightarrow> 'a \<Rightarrow> 'a list \<Rightarrow> nat \<Rightarrow> nat \<Rightarrow> nat" where
  "binarySearch c pivot a left right =
     (if left < right then
        (let mid = left + (right - left) div 2
         in if c pivot (a ! mid) < 0 then binarySearch c pivot a left mid
            else binarySearch c pivot a (mid + 1) right)
      else left)"
  by pat_completeness auto
termination
  by (relation "measure (\<lambda>(c, pivot, a, left, right). right - left)") auto

declare binarySearch.simps [simp del]

definition binaryInsert :: "('a \<Rightarrow> 'a \<Rightarrow> int) \<Rightarrow> 'a list \<Rightarrow> 'a \<Rightarrow> 'a list" where
  "binaryInsert c a pivot =
     (let left = binarySearch c pivot a 0 (length a)
      in take left a @ pivot # drop left a)"

definition js_sort :: "('a \<Rightarrow> 'a \<Rightarrow> int option) \<Rightarrow> 'a list \<Rightarrow> 'a list" where
  "js_sort cmp xs =
     (case countAndMakeRun (sortCompare cmp) xs of
        (run, rest) \<Rightarrow> foldl (binaryInsert (sortCompare cmp)) run rest)"

definition cleanRowOf :: "(string \<Rightarrow> int option) \<Rightarrow> row \<Rightarrow> cleanRow" where
  "cleanRowOf parseDate r =
     (let timeStr = orElse (r ''TimeCreated'')
                      (orElse (r ''TimeGenerated'') (orElse (r ''TimeCreated'') ''''))
      in \<lparr>date = parseDate timeStr,
          message = toLowerCase (orElse (r ''Message'') ''''),
          original = r\<rparr>)"

definition isSuccess :: "cleanRow \<Rightarrow> bool" where
  "isSuccess c = (js_includes (message c) ''successfully'' \<or> js_includes (message c) ''succeeded'')"

definition isFailure :: "cleanRow \<Rightarrow> bool" where
  "isFailure c = (js_includes (message c) ''fail'' \<or> js_includes (message c) ''error'')"

text \<open>
  \<^verbatim>\<open>!lastSuccessDate || row.date > lastSuccessDate\<close>: a \<^verbatim>\<open>Date\<close> object is truthy also when
  it is invalid, so the first disjunct holds for \<^verbatim>\<open>null\<close> only.
\<close>

definition sinceSuccess :: "jsdate option \<Rightarrow> cleanRow \<Rightarrow> bool" where
  "sinceSuccess lastSuccessDate c =
     (case lastSuccessDate of None \<Rightarrow> True | Some d \<Rightarrow> num_gt (date c) d)"

definition analyzeBackups ::
  "(string \<Rightarrow> int option) \<Rightarrow> int \<Rightarrow> row list option \<Rightarrow> backupVerdict" where
  "analyzeBackups parseDate now data =
     (case data of
        None \<Rightarrow> \<lparr>status = UNKNOWN_STATUS, gap = Some 0, lastSuccess = None, latestLog = None,
                 failCount = 0\<rparr>
      | Some rows \<Rightarrow>
          if length rows = 0
          then \<lparr>status = UNKNOWN_STATUS, gap = Some 0, lastSuccess = None, latestLog = None,
                failCount = 0\<rparr>
          else
            (let cleanData = js_sort (\<lambda>a b. num_sub (date b) (date a))
                               (map (cleanRowOf parseDate) rows);
                 latestLogDate = (case cleanData of [] \<Rightarrow> None | c # _ \<Rightarrow> Some (date c));
                 successRow = find isSuccess cleanData;
                 lastSuccessDate = (case successRow of None \<Rightarrow> None | Some c \<Rightarrow> Some (date c));
                 fails = foldl (\<lambda>n c. if isFailure c then
                                         if sinceSuccess lastSuccessDate c then n + 1 else n
                                       else n) 0 cleanData;
                 refTime = (case latestLogDate of None \<Rightarrow> Some now | Some d \<Rightarrow> d);
                 compareTime = (case lastSuccessDate of None \<Rightarrow> Some 0 | Some d \<Rightarrow> d);
                 diffMs = num_sub refTime compareTime;
                 hoursGap = map_option (\<lambda>d. real_of_int d / (1000 * 60 * 60)) diffMs;
                 st = (if num_gt hoursGap (Some 24) then FAIL else PASS)
             in \<lparr>status = st, gap = hoursGap, lastSuccess = lastSuccessDate,
                 latestLog = latestLogDate, failCount = fails\<rparr>))"

section \<open>Fusion\<close>

record report =
  sql :: verdict
  ad :: verdict
  backup :: backupVerdict
  overall :: severity

text \<open>The three reassignments of \<^verbatim>\<open>overall\<close> in \<^verbatim>\<open>runAudit\<close>, in their textual order.\<close>

definition overallRisk :: "severity \<Rightarrow> severity \<Rightarrow> bstatus \<Rightarrow> severity" where
  "overallRisk sqlRisk adRisk backupStatus =
     (let o0 = LOW;
          o1 = (if sqlRisk = MEDIUM \<or> adRisk = MEDIUM then MEDIUM else o0);
          o2 = (if sqlRisk = HIGH \<or> adRisk = HIGH then HIGH else o1);
          o3 = (if sqlRisk = CRITICAL \<or> adRisk = CRITICAL \<or> backupStatus = FAIL
                then CRITICAL else o2)
      in o3)"

definition runAudit ::
  "(string \<Rightarrow> int option) \<Rightarrow> int \<Rightarrow> row list option \<Rightarrow> row list option \<Rightarrow> row list option
     \<Rightarrow> report" where
  "runAudit parseDate now sqlData adData backupData =
     (let sqlAnalysis = analyzeSQL sqlData;
          adAnalysis = analyzeAD adData;
          backupAnalysis = analyzeBackups parseDate now backupData
      in \<lparr>sql = sqlAnalysis, ad = adAnalysis, backup = backupAnalysis,
          overall = overallRisk (risk sqlAnalysis) (risk adAnalysis) (status backupAnalysis)\<rparr>)"

section \<open>The classifiers with their exceptions\<close>

text \<open>
  Reading a property of \<^verbatim>\<open>null\<close> or \<^verbatim>\<open>undefined\<close>, or calling a method on them, throws a
  \<^verbatim>\<open>TypeError\<close>; nothing else in the classifiers can throw. Here the three classifiers are
  written once more with every such read as a step that may fail. A value that is a string
  or \<^verbatim>\<open>undefined\<close> is a \<open>string option\<close>; an element of the input array is a row or
  \<^verbatim>\<open>null\<close>, a \<open>row option\<close>; the array itself may be \<^verbatim>\<open>null\<close>.
\<close>

datatype error = TypeError

definition deref :: "'a option \<Rightarrow> error + 'a" where
  "deref x = (case x of None \<Rightarrow> Inl TypeError | Some v \<Rightarrow> Inr v)"

definition thenE :: "error + 'a \<Rightarrow> ('a \<Rightarrow> error + 'b) \<Rightarrow> error + 'b" where
  "thenE m f = (case m of Inl e \<Rightarrow> Inl e | Inr v \<Rightarrow> f v)"

text \<open>\<^verbatim>\<open>forEach\<close> and \<^verbatim>\<open>map\<close> with a callback that may throw: the first exception ends the loop.\<close>

fun forEachE :: "('s \<Rightarrow> 'a \<Rightarrow> error + 's) \<Rightarrow> 's \<Rightarrow> 'a list \<Rightarrow> error + 's" where
  "forEachE f s [] = Inr s"
| "forEachE f s (x # xs) = thenE (f s x) (\<lambda>s'. forEachE f s' xs)"

fun mapE :: "('a \<Rightarrow> error + 'b) \<Rightarrow> 'a list \<Rightarrow> error + 'b list" where
  "mapE f [] = Inr []"
| "mapE f (x # xs) = thenE (f x) (\<lambda>y. thenE (mapE f xs) (\<lambda>ys. Inr (y # ys)))"

text \<open>\<^verbatim>\<open>row.X\<close>, \<^verbatim>\<open>x || y\<close> on values, \<^verbatim>\<open>v.toLowerCase()\<close>, \<^verbatim>\<open>new Date(v)\<close> and \<^verbatim>\<open>a[i]\<close>.\<close>

definition getProp :: "row option \<Rightarrow> string \<Rightarrow> error + string option" where
  "getProp row k = thenE (deref row) (\<lambda>r. Inr (r k))"

definition js_or :: "string option \<Rightarrow> string option \<Rightarrow> string option" where
  "js_or x y = (case x of None \<Rightarrow> y | Some s \<Rightarrow> if s = [] then y else x)"

definition toLowerCaseE :: "string option \<Rightarrow> error + string" where
  "toLowerCaseE v = thenE (deref v) (\<lambda>s. Inr (toLowerCase s))"

definition newDate :: "(string \<Rightarrow> int option) \<Rightarrow> string option \<Rightarrow> jsdate" where
  "newDate parseDate v = (case v of None \<Rightarrow> None | Some s \<Rightarrow> parseDate s)"

definition nthOpt :: "'a list \<Rightarrow> nat \<Rightarrow> 'a option" where
  "nthOpt a i = (if i < length a then Some (a ! i) else None)"

text \<open>\<^verbatim>\<open>!data || data.length === 0\<close>: the length is read only when \<^verbatim>\<open>data\<close> is truthy.\<close>

definition noData :: "'a list option \<Rightarrow> error + bool" where
  "noData data =
     (if data = None then Inr True else thenE (deref data) (\<lambda>xs. Inr (length xs = 0)))"

definition sqlRowE ::
  "severity \<times> finding list \<Rightarrow> row option \<Rightarrow> error + severity \<times> finding list" where
  "sqlRowE st row =
     thenE (getProp row ''Priority'') (\<lambda>p.
     thenE (getProp row ''Finding'') (\<lambda>f.
     thenE (toLowerCaseE (js_or f (Some ''''))) (\<lambda>findingText.
     thenE (getProp row ''Details'') (\<lambda>d.
     thenE (getProp row ''DatabaseName'') (\<lambda>n.
       (let riskLevel = fst st; fs = snd st;
            priority = parseInt (template (js_or p (Some ''999'')));
            details = template (js_or d (Some ''''));
            dbName = template (js_or n (Some ''Unknown''))
        in Inr
          (if num_le priority 50 then
             if js_includes findingText ''backups not performed'' then
               (CRITICAL,
                fs @ [\<lparr>ftype = CRITICAL,
                       title = ''No Backups: '' @ dbName,
                       desc = ''Database '' @ [CHR 0x27] @ dbName @ [CHR 0x27]
                              @ '' has not been backed up recently. '' @ details,
                       impact = ''Total data loss of recent transactions in event of crash.''\<rparr>])
             else if js_includes findingText ''corruption check'' then
               (if riskLevel \<noteq> CRITICAL then HIGH else riskLevel,
                fs @ [\<lparr>ftype = HIGH,
                       title = ''Corruption Risk: '' @ dbName,
                       desc = ''DBCC CHECKDB never run on '' @ [CHR 0x27] @ dbName
                              @ [CHR 0x27] @ ''.'',
                       impact = ''Database may contain silent corruption making backups useless.''\<rparr>])
             else
               (if riskLevel = LOW then MEDIUM else riskLevel,
                fs @ [\<lparr>ftype = MEDIUM,
                       title = ''Config Issue: '' @ findingText,
                       desc = details,
                       impact = ''Performance or stability risk.''\<rparr>])
           else st)))))))"

definition analyzeSQLE :: "row option list option \<Rightarrow> error + verdict" where
  "analyzeSQLE data =
     thenE (noData data) (\<lambda>none.
       if none then Inr \<lparr>risk = UNKNOWN, findings = []\<rparr>
       else thenE (deref data) (\<lambda>xs.
            thenE (forEachE sqlRowE (LOW, []) xs) (\<lambda>st.
              Inr \<lparr>risk = fst st, findings = snd st\<rparr>)))"

definition adRowE ::
  "severity \<times> finding list \<Rightarrow> row option \<Rightarrow> error + severity \<times> finding list" where
  "adRowE st row =
     thenE (getProp row ''GroupName'') (\<lambda>g.
     thenE (toLowerCaseE (js_or g (Some ''''))) (\<lambda>group.
     thenE (getProp row ''Name'') (\<lambda>nm.
     thenE (toLowerCaseE (js_or nm (Some ''''))) (\<lambda>name.
     thenE (getProp row ''SamAccountName'') (\<lambda>sm.
     thenE (toLowerCaseE (js_or sm (Some ''''))) (\<lambda>sam.
       (let fs = snd st;
            combinedSearch = name @ '' '' @ sam
        in Inr
          (if js_includes group ''admin'' then
             if adIsRedFlag combinedSearch then
               (CRITICAL,
                fs @ [\<lparr>ftype = CRITICAL,
                       title = ''Unsecured Admin: '' @ template sm,
                       desc = ''Account '' @ [CHR 0x27] @ template nm @ [CHR 0x27]
                              @ '' is in '' @ [CHR 0x27] @ template g @ [CHR 0x27]
                              @ ''. This appears to be a service or generic account.'',
                       impact = ''High risk of credential theft. Service accounts should not be Domain Admins.''\<rparr>])
             else st
           else st))))))))"

definition analyzeADE :: "row option list option \<Rightarrow> error + verdict" where
  "analyzeADE data =
     thenE (noData data) (\<lambda>none.
       if none then Inr \<lparr>risk = UNKNOWN, findings = []\<rparr>
       else thenE (deref data) (\<lambda>xs.
            thenE (forEachE adRowE (LOW, []) xs) (\<lambda>st.
              Inr \<lparr>risk = fst st, findings = snd st\<rparr>)))"

definition cleanRowE :: "(string \<Rightarrow> int option) \<Rightarrow> row option \<Rightarrow> error + cleanRow" where
  "cleanRowE parseDate row =
     thenE (getProp row ''TimeCreated'') (\<lambda>tc.
     thenE (getProp row ''TimeGenerated'') (\<lambda>tg.
     thenE (getProp row ''Message'') (\<lambda>m.
     thenE (toLowerCaseE (js_or m (Some ''''))) (\<lambda>msg.
     thenE (deref row) (\<lambda>r.
       (let timeStr = js_or tc (js_or tg (js_or tc (Some '''')))
        in Inr \<lparr>date = newDate parseDate timeStr, message = msg, original = r\<rparr>))))))"

definition analyzeBackupsE ::
  "(string \<Rightarrow> int option) \<Rightarrow> int \<Rightarrow> row option list option \<Rightarrow> error + backupVerdict" where
  "analyzeBackupsE parseDate now data =
     thenE (noData data) (\<lambda>none.
       if none
       then Inr \<lparr>status = UNKNOWN_STATUS, gap = Some 0, lastSuccess = None, latestLog = None,
                 failCount = 0\<rparr>
       else
         thenE (deref data) (\<lambda>xs.
         thenE (mapE (cleanRowE parseDate) xs) (\<lambda>mapped.
         (let cleanData = js_sort (\<lambda>a b. num_sub (date b) (date a)) mapped;
              successRow = find isSuccess cleanData
          in
         thenE (if length cleanData > 0
                then thenE (deref (nthOpt cleanData 0)) (\<lambda>c. Inr (Some (date c)))
                else Inr None) (\<lambda>latestLogDate.
         thenE (if successRow \<noteq> None
                then thenE (deref successRow) (\<lambda>c. Inr (Some (date c)))
                else Inr None) (\<lambda>lastSuccessDate.
         (let fails = foldl (\<lambda>n c. if isFailure c then
                                      if sinceSuccess lastSuccessDate c then n + 1 else n
                                    else n) 0 cleanData;
              refTime = (case latestLogDate of None \<Rightarrow> Some now | Some d \<Rightarrow> d);
              compareTime = (case lastSuccessDate of None \<Rightarrow> Some 0 | Some d \<Rightarrow> d);
              diffMs = num_sub refTime compareTime;
              hoursGap = map_option (\<lambda>d. real_of_int d / (1000 * 60 * 60)) diffMs;
              st = (if num_gt hoursGap (Some 24) then FAIL else PASS)
          in Inr \<lparr>status = st, gap = hoursGap, lastSuccess = lastSuccessDate,
                   latestLog = latestLogDate, failCount = fails\<rparr>)))))))"

section \<open>Remediation plan\<close>

text \<open>
  The panel \<^verbatim>\<open>Top 3 Immediate Actions\<close> of the report view: four conditional blocks in
  this order, each contributing the item with the given heading.
\<close>

definition immediateActions :: "report \<Rightarrow> string list" where
  "immediateActions r =
     (if status (backup r) = FAIL then [''Emergency Backup Run''] else [])
     @ (if length (findings (ad r)) > 0 then [''Lock Down Admin Accounts''] else [])
     @ (if length (findings (sql r)) > 0 then [''Run DBCC CHECKDB & Log Audits''] else [])
     @ (if overall r \<noteq> CRITICAL then [''Schedule Quarterly Review''] else [])"

text \<open>
  The section \<^verbatim>\<open>IMMEDIATE REMEDIATION PLAN (TOP 3)\<close> of \<^verbatim>\<open>handleDownloadTxt\<close>: each
  item starts with a heading line that carries the running number \<^verbatim>\<open>actionCount\<close>; the
  heading lines are kept, as pairs of number and heading.
\<close>

definition remediationPlanTxt :: "report \<Rightarrow> (nat \<times> string) list" where
  "remediationPlanTxt r =
     (let actionCount = 1; ls = [];
          (ls, actionCount) =
             (if status (backup r) = FAIL
              then (ls @ [(actionCount, ''EMERGENCY BACKUP RUN'')], actionCount + 1)
              else (ls, actionCount));
          (ls, actionCount) =
             (if length (findings (ad r)) > 0
              then (ls @ [(actionCount, ''LOCK DOWN ADMIN ACCOUNTS'')], actionCount + 1)
              else (ls, actionCount));
          (ls, actionCount) =
             (if length (findings (sql r)) > 0
              then (ls @ [(actionCount, ''DATABASE INTEGRITY CHECKS'')], actionCount + 1)
              else (ls, actionCount))
      in ls)"

section \<open>The specification's wording\<close>

text \<open>
  The severity order \<open>LOW < MEDIUM < HIGH < CRITICAL\<close> as a rank, with \<open>UNKNOWN\<close> counted
  as \<open>LOW\<close>, and the overall severity as the specification states it: the maximum of the
  two risks and of the backup status read as a severity.
\<close>

definition sevRank :: "severity \<Rightarrow> nat" where
  "sevRank s = (case s of UNKNOWN \<Rightarrow> 0 | LOW \<Rightarrow> 0 | MEDIUM \<Rightarrow> 1 | HIGH \<Rightarrow> 2 | CRITICAL \<Rightarrow> 3)"

definition sevOfRank :: "nat \<Rightarrow> severity" where
  "sevOfRank n = (if n = 0 then LOW else if n = 1 then MEDIUM else if n = 2 then HIGH else CRITICAL)"

definition spec_overall :: "severity \<Rightarrow> severity \<Rightarrow> bstatus \<Rightarrow> severity" where
  "spec_overall sqlRisk adRisk backupStatus =
     sevOfRank (max (sevRank sqlRisk)
                 (max (sevRank adRisk)
                      (sevRank (if backupStatus = FAIL then CRITICAL else LOW))))"

text \<open>
  The AD rule as the specification words it: the keyword is searched in the plain
  concatenation of \<^verbatim>\<open>Name\<close> and \<^verbatim>\<open>SamAccountName\<close>.
\<close>

definition spec_adMatches :: "row \<Rightarrow> bool" where
  "spec_adMatches r =
     (js_includes (toLowerCase (orElse (r ''GroupName'') '''')) ''admin''
      \<and> (\<exists>keyword\<in>set redFlagKeywords.
            js_includes
              (toLowerCase (orElse (r ''Name'') '''' @ orElse (r ''SamAccountName'') ''''))
              keyword))"

text \<open>
  The failure count as the specification words it: an unparseable timestamp is the oldest
  instant, so it is strictly after nothing and every parseable timestamp is strictly
  after it.
\<close>

definition spec_after :: "jsdate \<Rightarrow> jsdate \<Rightarrow> bool" where
  "spec_after a b =
     (case a of None \<Rightarrow> False | Some x \<Rightarrow> (case b of None \<Rightarrow> True | Some y \<Rightarrow> y < x))"

definition spec_failCount :: "jsdate option \<Rightarrow> cleanRow list \<Rightarrow> nat" where
  "spec_failCount lastSuccessTimestamp cs =
     length (filter (\<lambda>c. isFailure c
                         \<and> (case lastSuccessTimestamp of None \<Rightarrow> True
                                                        | Some d \<Rightarrow> spec_after (date c) d)) cs)"

text \<open>
  The remediation plan as the specification words it: the three items in priority order,
  replaced by the single fallback item when the overall risk is not \<open>CRITICAL\<close>.
\<close>

definition spec_plan :: "report \<Rightarrow> string list" where
  "spec_plan r =
     (if overall r \<noteq> CRITICAL then [''Schedule Quarterly Review'']
      else (if status (backup r) = FAIL then [''Emergency Backup Run''] else [])
           @ (if findings (ad r) \<noteq> [] then [''Lock Down Admin Accounts''] else [])
           @ (if findings (sql r) \<noteq> [] then [''Run DBCC CHECKDB & Log Audits''] else []))"

text \<open>
  The shapes of the data model. A source verdict lists findings of severity \<open>MEDIUM\<close>,
  \<open>HIGH\<close> or \<open>CRITICAL\<close>, none above its risk, and none at all when the risk is
  \<open>UNKNOWN\<close>. A backup verdict has a number of hours, which \<^verbatim>\<open>NaN\<close> is not, and two
  optional instants, which an invalid date is not.
\<close>

definition wf_verdict :: "verdict \<Rightarrow> bool" where
  "wf_verdict v =
     ((\<forall>f\<in>set (findings v). ftype f \<in> {MEDIUM, HIGH, CRITICAL}
                               \<and> sevRank (ftype f) \<le> sevRank (risk v))
      \<and> (risk v = UNKNOWN \<longrightarrow> findings v = []))"

definition wf_backupVerdict :: "backupVerdict \<Rightarrow> bool" where
  "wf_backupVerdict v =
     (gap v \<noteq> None \<and> lastSuccess v \<noteq> Some None \<and> latestLog v \<noteq> Some None)"

section \<open>A date parser for the examples\<close>

text \<open>
  The examples below need one concrete \<open>parseDate\<close>. This one knows three ISO 8601
  instants, whose time values every engine agrees on, and rejects every other string, the
  empty string among them.
\<close>

definition exampleDates :: "string \<Rightarrow> int option" where
  "exampleDates s =
     map_of [(''1970-01-01T00:00:00Z'', 0),
             (''1970-01-02T00:00:00Z'', 86400000),
             (''1970-01-03T00:00:00Z'', 172800000)] s"

section \<open>Properties of the SQL classifier\<close>

lemma sqlRow_snd: "snd (sqlRow (s, fs) r) = fs @ snd (sqlRow (LOW, []) r)"
  by (simp add: sqlRow_def Let_def)

lemma sqlRow_fst:
  "fst (sqlRow (s, fs) r) =
     (if sqlActionable r then
        if sqlNoBackups r then CRITICAL
        else if sqlCorruption r then (if s \<noteq> CRITICAL then HIGH else s)
        else (if s = LOW then MEDIUM else s)
      else s)"
  by (simp add: sqlRow_def Let_def sqlActionable_def sqlNoBackups_def sqlCorruption_def)

lemma foldl_sqlRow_snd:
  "snd (foldl sqlRow (LOW, []) rows) = concat (map (\<lambda>r. snd (sqlRow (LOW, []) r)) rows)"
proof (induction rows rule: rev_induct)
  case Nil
  show ?case by simp
next
  case (snoc r rows)
  obtain s fs where st: "foldl sqlRow (LOW, []) rows = (s, fs)"
    by (cases "foldl sqlRow (LOW, []) rows")
  have fs: "fs = concat (map (\<lambda>r. snd (sqlRow (LOW, []) r)) rows)"
    using snoc st by simp
  have "snd (foldl sqlRow (LOW, []) (rows @ [r])) = snd (sqlRow (s, fs) r)"
    by (simp add: st)
  also have "\<dots> = fs @ snd (sqlRow (LOW, []) r)"
    by (rule sqlRow_snd)
  finally show ?case by (simp add: fs)
qed

lemma foldl_sqlRow_fst:
  "fst (foldl sqlRow (LOW, []) rows) =
     (if \<exists>r\<in>set rows. sqlActionable r \<and> sqlNoBackups r then CRITICAL
      else if \<exists>r\<in>set rows. sqlActionable r \<and> sqlCorruption r then HIGH
      else if \<exists>r\<in>set rows. sqlActionable r then MEDIUM
      else LOW)"
proof (induction rows rule: rev_induct)
  case Nil
  show ?case by simp
next
  case (snoc r rows)
  obtain s fs where st: "foldl sqlRow (LOW, []) rows = (s, fs)"
    by (cases "foldl sqlRow (LOW, []) rows")
  have "fst (foldl sqlRow (LOW, []) (rows @ [r])) = fst (sqlRow (s, fs) r)"
    by (simp add: st)
  also have "\<dots> = (if sqlActionable r then
        if sqlNoBackups r then CRITICAL
        else if sqlCorruption r then (if s \<noteq> CRITICAL then HIGH else s)
        else (if s = LOW then MEDIUM else s)
      else s)" by (rule sqlRow_fst)
  finally show ?case using snoc st
    by (auto split: if_splits)
qed

lemma analyzeSQL_risk:
  "risk (analyzeSQL (Some rows)) =
     (if rows = [] then UNKNOWN
      else if \<exists>r\<in>set rows. sqlActionable r \<and> sqlNoBackups r then CRITICAL
      else if \<exists>r\<in>set rows. sqlActionable r \<and> sqlCorruption r then HIGH
      else if \<exists>r\<in>set rows. sqlActionable r then MEDIUM
      else LOW)"
  by (simp add: analyzeSQL_def Let_def foldl_sqlRow_fst)

lemma analyzeSQL_findings:
  "findings (analyzeSQL (Some rows)) = concat (map (\<lambda>r. snd (sqlRow (LOW, []) r)) rows)"
  by (simp add: analyzeSQL_def Let_def foldl_sqlRow_snd)

lemma analyzeSQL_None: "analyzeSQL None = \<lparr>risk = UNKNOWN, findings = []\<rparr>"
  by (simp add: analyzeSQL_def)

lemma mset_concat_map_cong:
  assumes "mset ys = mset xs"
  shows "mset (concat (map f ys)) = mset (concat (map f xs))"
proof -
  have "mset (concat (map f zs)) = sum_mset (image_mset (\<lambda>z. mset (f z)) (mset zs))" for zs
    by (induction zs) simp_all
  with assms show ?thesis by simp
qed

text \<open>
  C2. The risk of the SQL verdict is \<open>CRITICAL\<close> exactly when some row is actionable
  (\<^verbatim>\<open>parseInt\<close> of its \<^verbatim>\<open>Priority\<close> is a number at most 50) and its lowered \<^verbatim>\<open>Finding\<close>
  text contains \<^verbatim>\<open>backups not performed\<close>.
\<close>

theorem sql_critical_iff:
  "risk (analyzeSQL (Some rows)) = CRITICAL \<longleftrightarrow>
     (\<exists>r\<in>set rows.
        num_le (parseInt (orElse (r ''Priority'') ''999'')) 50
        \<and> js_includes (toLowerCase (orElse (r ''Finding'') '''')) ''backups not performed'')"
  by (simp add: analyzeSQL_risk sqlActionable_def sqlNoBackups_def sqlPriority_def
      sqlFindingText_def)

theorem sql_critical_iff_witness:
  "risk (analyzeSQL (Some [[''Priority'' \<mapsto> ''60'', ''Finding'' \<mapsto> ''Backups not performed''],
                           [''Priority'' \<mapsto> ''10'', ''Finding'' \<mapsto> ''BACKUPS NOT PERFORMED lately'',
                            ''DatabaseName'' \<mapsto> ''HR'']])) = CRITICAL
   \<and> risk (analyzeSQL (Some [[''Priority'' \<mapsto> ''60'', ''Finding'' \<mapsto> ''Backups not performed''],
                             [''Priority'' \<mapsto> ''high'', ''Finding'' \<mapsto> ''Backups not performed'']]))
       \<noteq> CRITICAL"
proof -
  have a: "\<exists>r\<in>set [[''Priority'' \<mapsto> ''60'', ''Finding'' \<mapsto> ''Backups not performed''],
                   [''Priority'' \<mapsto> ''10'', ''Finding'' \<mapsto> ''BACKUPS NOT PERFORMED lately'',
                    ''DatabaseName'' \<mapsto> ''HR'']].
        num_le (parseInt (orElse (r ''Priority'') ''999'')) 50
        \<and> js_includes (toLowerCase (orElse (r ''Finding'') '''')) ''backups not performed''"
    by code_simp
  have b: "\<not> (\<exists>r\<in>set [[''Priority'' \<mapsto> ''60'', ''Finding'' \<mapsto> ''Backups not performed''],
                   [''Priority'' \<mapsto> ''high'', ''Finding'' \<mapsto> ''Backups not performed'']].
        num_le (parseInt (orElse (r ''Priority'') ''999'')) 50
        \<and> js_includes (toLowerCase (orElse (r ''Finding'') '''')) ''backups not performed'')"
    by code_simp
  from a b show ?thesis
    by (simp only: sql_critical_iff simp_thms)
qed

text \<open>
  C3. Reordering the rows changes neither the risk of the SQL verdict nor the findings it
  lists; only the order of the findings may change.
\<close>

theorem sql_permutation:
  assumes "mset ys = mset xs"
  shows "risk (analyzeSQL (Some ys)) = risk (analyzeSQL (Some xs))
       \<and> mset (findings (analyzeSQL (Some ys))) = mset (findings (analyzeSQL (Some xs)))"
proof -
  from assms have s: "set ys = set xs" by (rule mset_eq_setD)
  from assms have e: "(ys = []) = (xs = [])" by (metis mset_zero_iff)
  have "risk (analyzeSQL (Some ys)) = risk (analyzeSQL (Some xs))"
    unfolding analyzeSQL_risk s e ..
  moreover have "mset (findings (analyzeSQL (Some ys))) = mset (findings (analyzeSQL (Some xs)))"
    unfolding analyzeSQL_findings using assms by (rule mset_concat_map_cong)
  ultimately show ?thesis ..
qed

theorem sql_permutation_witness:
  "mset [[''Priority'' \<mapsto> ''10'', ''Finding'' \<mapsto> ''Backups not performed''],
         [''Priority'' \<mapsto> ''20'', ''Finding'' \<mapsto> ''Corruption check overdue'']]
     = mset [[''Priority'' \<mapsto> ''20'', ''Finding'' \<mapsto> ''Corruption check overdue''],
             [''Priority'' \<mapsto> ''10'', ''Finding'' \<mapsto> ''Backups not performed'']]
   \<and> risk (analyzeSQL (Some [[''Priority'' \<mapsto> ''10'', ''Finding'' \<mapsto> ''Backups not performed''],
         [''Priority'' \<mapsto> ''20'', ''Finding'' \<mapsto> ''Corruption check overdue'']]))
     = risk (analyzeSQL (Some [[''Priority'' \<mapsto> ''20'', ''Finding'' \<mapsto> ''Corruption check overdue''],
             [''Priority'' \<mapsto> ''10'', ''Finding'' \<mapsto> ''Backups not performed'']]))
   \<and> map ftype (findings (analyzeSQL (Some [[''Priority'' \<mapsto> ''10'', ''Finding'' \<mapsto> ''Backups not performed''],
         [''Priority'' \<mapsto> ''20'', ''Finding'' \<mapsto> ''Corruption check overdue'']])))
     = [CRITICAL, HIGH]
   \<and> map ftype (findings (analyzeSQL (Some [[''Priority'' \<mapsto> ''20'', ''Finding'' \<mapsto> ''Corruption check overdue''],
             [''Priority'' \<mapsto> ''10'', ''Finding'' \<mapsto> ''Backups not performed'']])))
     = [HIGH, CRITICAL]"
proof -
  have p: "mset [[''Priority'' \<mapsto> ''10'', ''Finding'' \<mapsto> ''Backups not performed''],
         [''Priority'' \<mapsto> ''20'', ''Finding'' \<mapsto> ''Corruption check overdue'']]
     = mset [[''Priority'' \<mapsto> ''20'', ''Finding'' \<mapsto> ''Corruption check overdue''],
             [''Priority'' \<mapsto> ''10'', ''Finding'' \<mapsto> ''Backups not performed'']]"
    by (simp add: add_mset_commute)
  have f1: "map ftype (findings (analyzeSQL (Some [[''Priority'' \<mapsto> ''10'', ''Finding'' \<mapsto> ''Backups not performed''],
         [''Priority'' \<mapsto> ''20'', ''Finding'' \<mapsto> ''Corruption check overdue'']])))
     = [CRITICAL, HIGH]"
    by code_simp
  have f2: "map ftype (findings (analyzeSQL (Some [[''Priority'' \<mapsto> ''20'', ''Finding'' \<mapsto> ''Corruption check overdue''],
             [''Priority'' \<mapsto> ''10'', ''Finding'' \<mapsto> ''Backups not performed'']])))
     = [HIGH, CRITICAL]"
    by code_simp
  from sql_permutation [OF p] p f1 f2 show ?thesis by blast
qed

section \<open>Properties of the AD classifier\<close>

lemma foldl_flag:
  "foldl (\<lambda>flag k. if P k then True else flag) b ks = (b \<or> (\<exists>k\<in>set ks. P k))"
  by (induction ks arbitrary: b) auto

lemma adIsRedFlag_iff:
  "adIsRedFlag cs = (\<exists>keyword\<in>set redFlagKeywords. js_includes cs keyword)"
  unfolding adIsRedFlag_def by (simp only: foldl_flag simp_thms)

lemma adRow_eq:
  "adRow (s, fs) r = (if adMatches r then (CRITICAL, fs @ [adFinding r]) else (s, fs))"
  by (simp add: adRow_def Let_def adMatches_def adIsRedFlag_iff)

lemma foldl_adRow:
  "foldl adRow (s, fs) rows =
     (if \<exists>r\<in>set rows. adMatches r then CRITICAL else s,
      fs @ map adFinding (filter adMatches rows))"
proof (induction rows arbitrary: s fs)
  case Nil
  show ?case by simp
next
  case (Cons r rows)
  show ?case
    by (cases "adMatches r") (simp_all add: adRow_eq Cons.IH)
qed

lemma analyzeAD_Some:
  "analyzeAD (Some rows) =
     \<lparr>risk = (if rows = [] then UNKNOWN
              else if \<exists>r\<in>set rows. adMatches r then CRITICAL else LOW),
      findings = map adFinding (filter adMatches rows)\<rparr>"
  by (simp add: analyzeAD_def Let_def foldl_adRow)

lemma analyzeAD_None: "analyzeAD None = \<lparr>risk = UNKNOWN, findings = []\<rparr>"
  by (simp add: analyzeAD_def)

lemma js_includes_sublist: "js_includes s n = sublist n s"
  by (induction s) (simp_all add: sublist_Cons_right)

lemma sublist_separator:
  assumes "c \<notin> set n"
  shows "sublist n (a @ c # b) \<longleftrightarrow> sublist n a \<or> sublist n b"
proof
  assume "sublist n (a @ c # b)"
  then consider "sublist n a" | "sublist n (c # b)"
    | n1 n2 where "n = n1 @ n2" "suffix n1 a" "prefix n2 (c # b)"
    by (auto simp add: sublist_append)
  then show "sublist n a \<or> sublist n b"
  proof cases
    case 1
    then show ?thesis ..
  next
    case 2
    then have "prefix n (c # b) \<or> sublist n b" by (simp add: sublist_Cons_right)
    then show ?thesis
    proof
      assume "prefix n (c # b)"
      with assms have "n = []" by (cases n) auto
      then show ?thesis by simp
    next
      assume "sublist n b"
      then show ?thesis ..
    qed
  next
    case 3
    from 3(3) assms 3(1) have "n2 = []" by (cases n2) auto
    with 3(1) 3(2) have "suffix n a" by simp
    then show ?thesis by (auto intro: suffix_imp_sublist)
  qed
next
  assume "sublist n a \<or> sublist n b"
  then show "sublist n (a @ c # b)"
    by (auto simp add: sublist_append sublist_Cons_right)
qed

lemma adMatches_separate:
  "adMatches r \<longleftrightarrow>
     js_includes (toLowerCase (orElse (r ''GroupName'') '''')) ''admin''
     \<and> (\<exists>keyword\<in>set redFlagKeywords.
           js_includes (toLowerCase (orElse (r ''Name'') '''')) keyword
           \<or> js_includes (toLowerCase (orElse (r ''SamAccountName'') '''')) keyword)"
proof -
  have sp: "CHR '' '' \<notin> set keyword" if "keyword \<in> set redFlagKeywords" for keyword
    using that by (auto simp add: redFlagKeywords_def)
  have "js_includes (adCombinedSearch r) keyword \<longleftrightarrow>
      js_includes (toLowerCase (orElse (r ''Name'') '''')) keyword
      \<or> js_includes (toLowerCase (orElse (r ''SamAccountName'') '''')) keyword"
    if "keyword \<in> set redFlagKeywords" for keyword
    using sublist_separator [OF sp [OF that]]
    by (simp add: adCombinedSearch_def Let_def js_includes_sublist)
  then show ?thesis
    by (auto simp add: adMatches_def adGroup_def)
qed

text \<open>
  C4, as the claim words it, fails: the classifier searches the keywords in the lowered
  \<^verbatim>\<open>Name\<close> and \<^verbatim>\<open>SamAccountName\<close> joined by a space, not in their concatenation. The
  account \<^verbatim>\<open>emp01\<close> of \<^verbatim>\<open>Walt\<close> in \<^verbatim>\<open>Domain Admins\<close> satisfies the claim's condition
  (\<^verbatim>\<open>waltemp01\<close> contains \<^verbatim>\<open>temp\<close>) and gets no finding.
\<close>

theorem ad_concatenation_counterexample:
  "spec_adMatches [''GroupName'' \<mapsto> ''Domain Admins'', ''Name'' \<mapsto> ''Walt'',
                   ''SamAccountName'' \<mapsto> ''emp01'']
   \<and> analyzeAD (Some [[''GroupName'' \<mapsto> ''Domain Admins'', ''Name'' \<mapsto> ''Walt'',
                         ''SamAccountName'' \<mapsto> ''emp01'']])
       = \<lparr>risk = LOW, findings = []\<rparr>"
  by code_simp

text \<open>
  C4, amended. The findings of the AD verdict are one finding per matching row, in the
  order of the rows, where a row matches when its lowered \<^verbatim>\<open>GroupName\<close> contains
  \<^verbatim>\<open>admin\<close> and a red-flag keyword occurs in the lowered \<^verbatim>\<open>Name\<close>, a space and the
  lowered \<^verbatim>\<open>SamAccountName\<close>; as no keyword contains a space, that is when a keyword
  occurs in the lowered \<^verbatim>\<open>Name\<close> or in the lowered \<^verbatim>\<open>SamAccountName\<close>. Every finding
  is \<open>CRITICAL\<close>; for a row that has a \<^verbatim>\<open>SamAccountName\<close> the title is
  \<^verbatim>\<open>Unsecured Admin: \<close> followed by it. The risk is \<open>CRITICAL\<close> if a row matches,
  \<open>LOW\<close> if there are rows and none matches, \<open>UNKNOWN\<close> for no rows.
\<close>

theorem ad_findings:
  "findings (analyzeAD (Some rows)) = map adFinding (filter adMatches rows)
   \<and> risk (analyzeAD (Some rows)) =
       (if rows = [] then UNKNOWN else if \<exists>r\<in>set rows. adMatches r then CRITICAL else LOW)
   \<and> adMatches r =
       (js_includes (toLowerCase (orElse (r ''GroupName'') '''')) ''admin''
        \<and> (\<exists>keyword\<in>set redFlagKeywords.
              js_includes (toLowerCase (orElse (r ''Name'') '''') @ '' ''
                           @ toLowerCase (orElse (r ''SamAccountName'') '''')) keyword))
   \<and> adMatches r =
       (js_includes (toLowerCase (orElse (r ''GroupName'') '''')) ''admin''
        \<and> (\<exists>keyword\<in>set redFlagKeywords.
              js_includes (toLowerCase (orElse (r ''Name'') '''')) keyword
              \<or> js_includes (toLowerCase (orElse (r ''SamAccountName'') '''')) keyword))
   \<and> ftype (adFinding r) = CRITICAL
   \<and> title (adFinding (r(''SamAccountName'' \<mapsto> s))) = ''Unsecured Admin: '' @ s"
proof -
  have "adMatches r =
       (js_includes (toLowerCase (orElse (r ''GroupName'') '''')) ''admin''
        \<and> (\<exists>keyword\<in>set redFlagKeywords.
              js_includes (toLowerCase (orElse (r ''Name'') '''') @ '' ''
                           @ toLowerCase (orElse (r ''SamAccountName'') '''')) keyword))"
    by (simp add: adMatches_def adGroup_def adCombinedSearch_def Let_def)
  moreover have "ftype (adFinding r) = CRITICAL
      \<and> title (adFinding (r(''SamAccountName'' \<mapsto> s))) = ''Unsecured Admin: '' @ s"
    by (simp add: adFinding_def template_def)
  moreover have "findings (analyzeAD (Some rows)) = map adFinding (filter adMatches rows)
      \<and> risk (analyzeAD (Some rows)) =
          (if rows = [] then UNKNOWN else if \<exists>r\<in>set rows. adMatches r then CRITICAL else LOW)"
    by (simp add: analyzeAD_Some)
  moreover note adMatches_separate [of r]
  ultimately show ?thesis by blast
qed

theorem ad_findings_witness:
  "map title (findings (analyzeAD (Some
      [[''GroupName'' \<mapsto> ''Domain Admins'', ''Name'' \<mapsto> ''Backup Service'',
        ''SamAccountName'' \<mapsto> ''svc_backup''],
       [''GroupName'' \<mapsto> ''Domain Admins'', ''SamAccountName'' \<mapsto> ''jane.doe''],
       [''GroupName'' \<mapsto> ''Printer Operators'', ''SamAccountName'' \<mapsto> ''printer01'']])))
     = [''Unsecured Admin: svc_backup'']
   \<and> risk (analyzeAD (Some
      [[''GroupName'' \<mapsto> ''Domain Admins'', ''Name'' \<mapsto> ''Backup Service'',
        ''SamAccountName'' \<mapsto> ''svc_backup''],
       [''GroupName'' \<mapsto> ''Domain Admins'', ''SamAccountName'' \<mapsto> ''jane.doe''],
       [''GroupName'' \<mapsto> ''Printer Operators'', ''SamAccountName'' \<mapsto> ''printer01'']]))
     = CRITICAL"
proof -
  let ?rows = "[[''GroupName'' \<mapsto> ''Domain Admins'', ''Name'' \<mapsto> ''Backup Service'',
        ''SamAccountName'' \<mapsto> ''svc_backup''],
       [''GroupName'' \<mapsto> ''Domain Admins'', ''SamAccountName'' \<mapsto> ''jane.doe''],
       [''GroupName'' \<mapsto> ''Printer Operators'', ''SamAccountName'' \<mapsto> ''printer01'']]"
  have m: "map title (map adFinding (filter adMatches ?rows)) = [''Unsecured Admin: svc_backup'']"
    by code_simp
  have e: "(if ?rows = [] then UNKNOWN else if \<exists>r\<in>set ?rows. adMatches r then CRITICAL else LOW)
      = CRITICAL" by code_simp
  from ad_findings [of ?rows] m e show ?thesis by metis
qed

section \<open>Properties of the fusion\<close>

text \<open>
  C1. The overall severity is the maximum, in the order \<open>LOW < MEDIUM < HIGH < CRITICAL\<close>
  with \<open>UNKNOWN\<close> counted as \<open>LOW\<close>, of the SQL risk, the AD risk and the backup status
  read as \<open>CRITICAL\<close> when it is \<open>FAIL\<close> and as \<open>LOW\<close> otherwise. It is never below either
  risk, and it is \<open>CRITICAL\<close> when the backup status is \<open>FAIL\<close>.
\<close>

theorem overall_is_max:
  "overallRisk sqlRisk adRisk backupStatus = spec_overall sqlRisk adRisk backupStatus
   \<and> max (sevRank sqlRisk) (sevRank adRisk) \<le> sevRank (overallRisk sqlRisk adRisk backupStatus)
   \<and> overallRisk sqlRisk adRisk FAIL = CRITICAL
   \<and> overall (runAudit parseDate now sqlData adData backupData) =
       spec_overall (risk (sql (runAudit parseDate now sqlData adData backupData)))
                    (risk (ad (runAudit parseDate now sqlData adData backupData)))
                    (status (backup (runAudit parseDate now sqlData adData backupData)))"
proof -
  have eq: "overallRisk s a b = spec_overall s a b" for s a b
    by (cases s; cases a; cases b)
       (simp_all add: overallRisk_def spec_overall_def sevRank_def sevOfRank_def)
  have ge: "max (sevRank sqlRisk) (sevRank adRisk) \<le> sevRank (overallRisk sqlRisk adRisk backupStatus)"
    by (cases sqlRisk; cases adRisk; cases backupStatus)
       (simp_all add: overallRisk_def sevRank_def)
  have cr: "overallRisk sqlRisk adRisk FAIL = CRITICAL"
    by (simp add: overallRisk_def)
  have ra: "overall (runAudit parseDate now sqlData adData backupData) =
       spec_overall (risk (sql (runAudit parseDate now sqlData adData backupData)))
                    (risk (ad (runAudit parseDate now sqlData adData backupData)))
                    (status (backup (runAudit parseDate now sqlData adData backupData)))"
    by (simp add: runAudit_def Let_def eq)
  from eq ge cr ra show ?thesis by simp
qed

theorem overall_is_max_witness:
  "overallRisk MEDIUM UNKNOWN PASS = MEDIUM \<and> overallRisk LOW HIGH UNKNOWN_STATUS = HIGH
   \<and> overallRisk UNKNOWN LOW FAIL = CRITICAL"
proof -
  have "spec_overall MEDIUM UNKNOWN PASS = MEDIUM" by code_simp
  moreover have "spec_overall LOW HIGH UNKNOWN_STATUS = HIGH" by code_simp
  moreover have "spec_overall UNKNOWN LOW FAIL = CRITICAL" by code_simp
  ultimately show ?thesis
    using overall_is_max [of MEDIUM UNKNOWN PASS] overall_is_max [of LOW HIGH UNKNOWN_STATUS]
      overall_is_max [of UNKNOWN LOW FAIL]
    by simp
qed

section \<open>Properties of the backup classifier\<close>

lemma mset_binaryInsert: "mset (binaryInsert c a pivot) = add_mset pivot (mset a)"
proof -
  have "mset (take n a) + mset (drop n a) = mset a" for n
    by (metis append_take_drop_id mset_append)
  then show ?thesis by (simp add: binaryInsert_def Let_def)
qed

lemma mset_foldl_binaryInsert: "mset (foldl (binaryInsert c) acc xs) = mset acc + mset xs"
  by (induction xs arbitrary: acc) (simp_all add: mset_binaryInsert)

lemma mset_countAndMakeRun:
  "mset (fst (countAndMakeRun c xs)) + mset (snd (countAndMakeRun c xs)) = mset xs"
proof -
  have td: "mset (take n xs) + mset (drop n xs) = mset xs" for n
    by (metis append_take_drop_id mset_append)
  show ?thesis
  proof (cases xs)
    case Nil
    then show ?thesis by (simp add: countAndMakeRun_def)
  next
    case (Cons x ys)
    show ?thesis
    proof (cases ys)
      case Nil
      with Cons show ?thesis by (simp add: countAndMakeRun_def)
    next
      case (Cons y zs)
      have "countAndMakeRun c xs =
          (let isDescending = (c y x < 0);
               runLength = 2 + countRun c isDescending y zs;
               run = take runLength xs
           in (if isDescending then rev run else run, drop runLength xs))"
        using \<open>xs = x # ys\<close> Cons by (simp add: countAndMakeRun_def)
      then show ?thesis using td by (simp add: Let_def)
    qed
  qed
qed

lemma mset_js_sort: "mset (js_sort cmp xs) = mset xs"
proof -
  obtain run rest where rr: "countAndMakeRun (sortCompare cmp) xs = (run, rest)"
    by (cases "countAndMakeRun (sortCompare cmp) xs")
  with mset_countAndMakeRun [of "sortCompare cmp" xs] have "mset run + mset rest = mset xs"
    by simp
  then show ?thesis by (simp add: js_sort_def rr mset_foldl_binaryInsert)
qed

lemma set_js_sort: "set (js_sort cmp xs) = set xs"
  by (metis mset_js_sort set_mset_mset)

lemma js_sort_Nil_iff: "js_sort cmp xs = [] \<longleftrightarrow> xs = []"
  by (metis mset_js_sort mset_zero_iff)

lemma foldl_count:
  "foldl (\<lambda>n c. if P c then if Q c then n + 1 else n else n) k cs
     = k + length (filter (\<lambda>c. P c \<and> Q c) cs)"
  by (induction cs arbitrary: k) simp_all

lemma length_filter_js_sort:
  "length (filter P (js_sort cmp xs)) = length (filter P xs)"
proof -
  have "mset (filter P (js_sort cmp xs)) = mset (filter P xs)"
    by (simp add: mset_js_sort)
  then show ?thesis by (rule mset_eq_length)
qed

lemma analyzeBackups_None:
  "analyzeBackups pd now None =
     \<lparr>status = UNKNOWN_STATUS, gap = Some 0, lastSuccess = None, latestLog = None, failCount = 0\<rparr>"
  by (simp add: analyzeBackups_def)

lemma analyzeBackups_Nil:
  "analyzeBackups pd now (Some []) =
     \<lparr>status = UNKNOWN_STATUS, gap = Some 0, lastSuccess = None, latestLog = None, failCount = 0\<rparr>"
  by (simp add: analyzeBackups_def)

lemma analyzeBackups_status:
  "status (analyzeBackups pd now (Some rows)) =
     (if rows = [] then UNKNOWN_STATUS
      else if num_gt (gap (analyzeBackups pd now (Some rows))) (Some 24) then FAIL else PASS)"
  by (simp add: analyzeBackups_def Let_def)

lemma analyzeBackups_lastSuccess:
  "lastSuccess (analyzeBackups pd now (Some rows)) =
     (case find isSuccess (js_sort (\<lambda>a b. num_sub (date b) (date a)) (map (cleanRowOf pd) rows)) of
        None \<Rightarrow> None | Some c \<Rightarrow> Some (date c))"
  by (cases "rows = []")
     (simp_all add: analyzeBackups_def Let_def js_sort_def countAndMakeRun_def)

lemma analyzeBackups_failCount:
  "failCount (analyzeBackups pd now (Some rows)) =
     length (filter (\<lambda>c. isFailure c \<and> sinceSuccess (lastSuccess (analyzeBackups pd now (Some rows))) c)
       (map (cleanRowOf pd) rows))"
proof (cases "rows = []")
  case True
  then show ?thesis by (simp add: analyzeBackups_def)
next
  case False
  let ?cd = "js_sort (\<lambda>a b. num_sub (date b) (date a)) (map (cleanRowOf pd) rows)"
  let ?ls = "case find isSuccess ?cd of None \<Rightarrow> None | Some c \<Rightarrow> Some (date c)"
  have "failCount (analyzeBackups pd now (Some rows)) =
      foldl (\<lambda>n c. if isFailure c then if sinceSuccess ?ls c then n + 1 else n else n) 0 ?cd"
    using False by (simp add: analyzeBackups_def Let_def)
  also have "\<dots> = length (filter (\<lambda>c. isFailure c \<and> sinceSuccess ?ls c) ?cd)"
    by (simp only: foldl_count add_0)
  also have "\<dots> = length (filter (\<lambda>c. isFailure c \<and> sinceSuccess ?ls c) (map (cleanRowOf pd) rows))"
    by (rule length_filter_js_sort)
  finally show ?thesis by (simp only: analyzeBackups_lastSuccess)
qed

lemma analyzeBackups_lastSuccess_None:
  "lastSuccess (analyzeBackups pd now (Some rows)) = None \<longleftrightarrow>
     \<not> (\<exists>c\<in>set (map (cleanRowOf pd) rows). isSuccess c)"
proof -
  let ?cd = "js_sort (\<lambda>a b. num_sub (date b) (date a)) (map (cleanRowOf pd) rows)"
  have "lastSuccess (analyzeBackups pd now (Some rows)) = None \<longleftrightarrow> find isSuccess ?cd = None"
    by (simp add: analyzeBackups_lastSuccess split: option.splits)
  also have "\<dots> \<longleftrightarrow> \<not> (\<exists>c\<in>set ?cd. isSuccess c)"
    by (auto simp add: find_None_iff)
  also have "\<dots> \<longleftrightarrow> \<not> (\<exists>c\<in>set (map (cleanRowOf pd) rows). isSuccess c)"
    by (simp only: set_js_sort)
  finally show ?thesis .
qed

lemma analyzeBackups_latestLog:
  "rows \<noteq> [] \<Longrightarrow> \<exists>d. latestLog (analyzeBackups pd now (Some rows)) = Some d"
  by (cases "js_sort (\<lambda>a b. num_sub (date b) (date a)) (map (cleanRowOf pd) rows)")
     (simp_all add: analyzeBackups_def Let_def js_sort_Nil_iff)

lemma analyzeBackups_latestLog_mem:
  assumes "rows \<noteq> []"
  shows "\<exists>c\<in>set (map (cleanRowOf pd) rows).
           latestLog (analyzeBackups pd now (Some rows)) = Some (date c)"
proof (cases "js_sort (\<lambda>a b. num_sub (date b) (date a)) (map (cleanRowOf pd) rows)")
  case Nil
  with assms show ?thesis by (simp add: js_sort_Nil_iff)
next
  case (Cons c cs)
  then have "c \<in> set (js_sort (\<lambda>a b. num_sub (date b) (date a)) (map (cleanRowOf pd) rows))"
    by simp
  then have "c \<in> set (map (cleanRowOf pd) rows)"
    by (simp only: set_js_sort)
  moreover have "latestLog (analyzeBackups pd now (Some rows)) = Some (date c)"
    using assms Cons by (simp add: analyzeBackups_def Let_def)
  ultimately show ?thesis by blast
qed

lemma analyzeBackups_gap:
  "rows \<noteq> [] \<Longrightarrow> gap (analyzeBackups pd now (Some rows)) =
     map_option (\<lambda>d. real_of_int d / (1000 * 60 * 60))
       (num_sub (case latestLog (analyzeBackups pd now (Some rows)) of None \<Rightarrow> Some now | Some d \<Rightarrow> d)
                (case lastSuccess (analyzeBackups pd now (Some rows)) of None \<Rightarrow> Some 0 | Some d \<Rightarrow> d))"
  by (simp add: analyzeBackups_def Let_def)

lemma num_sub_None: "num_sub x y = None \<longleftrightarrow> x = None \<or> y = None"
  by (simp add: num_sub_def split: option.splits)

lemma analyzeBackups_gap_None:
  assumes "rows \<noteq> []"
  shows "gap (analyzeBackups pd now (Some rows)) = None \<longleftrightarrow>
     latestLog (analyzeBackups pd now (Some rows)) = Some None
     \<or> lastSuccess (analyzeBackups pd now (Some rows)) = Some None"
proof -
  from analyzeBackups_latestLog [OF assms] obtain d
    where d: "latestLog (analyzeBackups pd now (Some rows)) = Some d" by blast
  show ?thesis
    by (simp add: analyzeBackups_gap [OF assms] d num_sub_None split: option.splits)
qed

lemma sinceSuccess_spec:
  "ls \<noteq> Some None \<Longrightarrow>
     sinceSuccess ls c = (case ls of None \<Rightarrow> True | Some d \<Rightarrow> spec_after (date c) d)"
  by (auto simp add: sinceSuccess_def spec_after_def num_gt_def split: option.splits)

lemma sinceSuccess_invalid: "sinceSuccess (Some None) c = False"
  by (simp add: sinceSuccess_def num_gt_def split: option.splits)

lemma hours_gt_24: "24 < real_of_int d / (1000 * 60 * 60) \<longleftrightarrow> 86400000 < d"
proof -
  have "24 < real_of_int d / (1000 * 60 * 60) \<longleftrightarrow> real_of_int 86400000 < real_of_int d"
    by (simp add: field_simps)
  also have "\<dots> \<longleftrightarrow> 86400000 < d"
    by (simp only: of_int_less_iff)
  finally show ?thesis .
qed

lemma analyzeBackups_FAIL_iff:
  assumes "rows \<noteq> []"
  shows "status (analyzeBackups pd now (Some rows)) = FAIL \<longleftrightarrow>
     (\<exists>t s. latestLog (analyzeBackups pd now (Some rows)) = Some (Some t)
          \<and> (case lastSuccess (analyzeBackups pd now (Some rows)) of
                None \<Rightarrow> s = 0 | Some d \<Rightarrow> d = Some s)
          \<and> 86400000 < t - s)"
proof -
  define v where "v = analyzeBackups pd now (Some rows)"
  from analyzeBackups_latestLog [OF assms] obtain l where l: "latestLog v = Some l"
    unfolding v_def by blast
  have g: "gap v = map_option (\<lambda>d. real_of_int d / (1000 * 60 * 60))
       (num_sub l (case lastSuccess v of None \<Rightarrow> Some 0 | Some d \<Rightarrow> d))"
    using analyzeBackups_gap [OF assms, of pd now] l unfolding v_def by simp
  have s: "status v = (if num_gt (gap v) (Some 24) then FAIL else PASS)"
    using assms unfolding v_def by (simp add: analyzeBackups_status [of _ _ rows])
  have "status v = FAIL \<longleftrightarrow>
     (\<exists>t s. latestLog v = Some (Some t)
          \<and> (case lastSuccess v of None \<Rightarrow> s = 0 | Some d \<Rightarrow> d = Some s)
          \<and> 86400000 < t - s)"
    unfolding s g l
    by (cases l; cases "lastSuccess v"; cases "the (lastSuccess v)")
       (auto simp add: num_gt_def num_sub_def hours_gt_24)
  then show ?thesis unfolding v_def .
qed

text \<open>
  C5. For a non-empty array the status is \<open>FAIL\<close> when the gap of the verdict exceeds 24
  hours and \<open>PASS\<close> otherwise, a gap of \<^verbatim>\<open>NaN\<close> included; for \<^verbatim>\<open>null\<close> and for the empty
  array the status is \<open>UNKNOWN\<close>. In terms of the dates of the verdict, the status is
  \<open>FAIL\<close> exactly when the most recent log date is valid, the success date is valid or
  missing (then the epoch stands for it), and they lie more than 86400000 milliseconds
  apart.
\<close>

theorem backup_status:
  "status (analyzeBackups parseDate now (Some (r # rs))) =
     (if num_gt (gap (analyzeBackups parseDate now (Some (r # rs)))) (Some 24) then FAIL else PASS)
   \<and> status (analyzeBackups parseDate now (Some [])) = UNKNOWN_STATUS
   \<and> status (analyzeBackups parseDate now None) = UNKNOWN_STATUS
   \<and> (status (analyzeBackups parseDate now (Some (r # rs))) = FAIL \<longleftrightarrow>
        (\<exists>t s. latestLog (analyzeBackups parseDate now (Some (r # rs))) = Some (Some t)
             \<and> (case lastSuccess (analyzeBackups parseDate now (Some (r # rs))) of
                   None \<Rightarrow> s = 0 | Some d \<Rightarrow> d = Some s)
             \<and> 86400000 < t - s))"
proof -
  have ne: "r # rs \<noteq> []" by simp
  have "status (analyzeBackups parseDate now (Some (r # rs))) =
     (if num_gt (gap (analyzeBackups parseDate now (Some (r # rs)))) (Some 24) then FAIL else PASS)"
    by (simp add: analyzeBackups_status [of _ _ "r # rs"])
  moreover have "status (analyzeBackups parseDate now (Some [])) = UNKNOWN_STATUS"
    by (simp add: analyzeBackups_Nil)
  moreover have "status (analyzeBackups parseDate now None) = UNKNOWN_STATUS"
    by (simp add: analyzeBackups_None)
  moreover note analyzeBackups_FAIL_iff [OF ne, of parseDate now]
  ultimately show ?thesis by (intro conjI)
qed

theorem backup_status_witness:
  "status (analyzeBackups exampleDates 0
      (Some [[''TimeCreated'' \<mapsto> ''1970-01-03T00:00:00Z'', ''Message'' \<mapsto> ''Backup failed''],
             [''TimeCreated'' \<mapsto> ''1970-01-01T00:00:00Z'', ''Message'' \<mapsto> ''Job succeeded'']]))
     = FAIL
   \<and> status (analyzeBackups exampleDates 0
      (Some [[''TimeCreated'' \<mapsto> ''1970-01-02T00:00:00Z'', ''Message'' \<mapsto> ''Backup failed''],
             [''TimeCreated'' \<mapsto> ''1970-01-01T00:00:00Z'', ''Message'' \<mapsto> ''Job succeeded'']]))
     = PASS"
proof -
  have a: "gap (analyzeBackups exampleDates 0
      (Some [[''TimeCreated'' \<mapsto> ''1970-01-03T00:00:00Z'', ''Message'' \<mapsto> ''Backup failed''],
             [''TimeCreated'' \<mapsto> ''1970-01-01T00:00:00Z'', ''Message'' \<mapsto> ''Job succeeded'']]))
     = Some 48" by code_simp
  have b: "gap (analyzeBackups exampleDates 0
      (Some [[''TimeCreated'' \<mapsto> ''1970-01-02T00:00:00Z'', ''Message'' \<mapsto> ''Backup failed''],
             [''TimeCreated'' \<mapsto> ''1970-01-01T00:00:00Z'', ''Message'' \<mapsto> ''Job succeeded'']]))
     = Some 24" by code_simp
  note s = backup_status [where parseDate = exampleDates and now = 0, THEN conjunct1]
  show ?thesis
    by (simp add: s a b num_gt_def)
qed

text \<open>
  C6, as the claim words it, fails when the success record itself has an unparseable
  timestamp: read as the oldest instant, it has the later failure strictly after it, and
  the classifier counts no failure at all. Here the success record has no timestamp.
\<close>

theorem failcount_unparseable_success_counterexample:
  "failCount (analyzeBackups exampleDates 0
      (Some [[''Message'' \<mapsto> ''Backup completed successfully''],
             [''TimeCreated'' \<mapsto> ''1970-01-03T00:00:00Z'', ''Message'' \<mapsto> ''Backup failed'']]))
     = 0
   \<and> spec_failCount
       (lastSuccess (analyzeBackups exampleDates 0
          (Some [[''Message'' \<mapsto> ''Backup completed successfully''],
                 [''TimeCreated'' \<mapsto> ''1970-01-03T00:00:00Z'', ''Message'' \<mapsto> ''Backup failed'']])))
       (map (cleanRowOf exampleDates)
          [[''Message'' \<mapsto> ''Backup completed successfully''],
           [''TimeCreated'' \<mapsto> ''1970-01-03T00:00:00Z'', ''Message'' \<mapsto> ''Backup failed'']])
     = 1"
  by code_simp

text \<open>
  C6, amended. No success date is reported exactly when no record's lowered message
  contains \<^verbatim>\<open>successfully\<close> or \<^verbatim>\<open>succeeded\<close>. When the reported success date is a valid
  date or is missing, the failure count is the count the claim describes: the fail/error
  records strictly after the success date, a record with an unparseable timestamp being
  after nothing, or all fail/error records when there is no success date. When the
  reported success date is itself invalid, the failure count is 0.
\<close>

theorem failcount_since_success:
  "(lastSuccess (analyzeBackups parseDate now (Some rows)) = None \<longleftrightarrow>
      \<not> (\<exists>c\<in>set (map (cleanRowOf parseDate) rows). isSuccess c))
   \<and> failCount (analyzeBackups parseDate now (Some rows)) =
       (if lastSuccess (analyzeBackups parseDate now (Some rows)) = Some None then 0
        else spec_failCount (lastSuccess (analyzeBackups parseDate now (Some rows)))
               (map (cleanRowOf parseDate) rows))"
proof -
  let ?ls = "lastSuccess (analyzeBackups parseDate now (Some rows))"
  let ?cs = "map (cleanRowOf parseDate) rows"
  have fc: "failCount (analyzeBackups parseDate now (Some rows)) =
      length (filter (\<lambda>c. isFailure c \<and> sinceSuccess ?ls c) ?cs)"
    by (rule analyzeBackups_failCount)
  have "failCount (analyzeBackups parseDate now (Some rows)) =
       (if ?ls = Some None then 0 else spec_failCount ?ls ?cs)"
  proof (cases "?ls = Some None")
    case True
    then show ?thesis by (simp add: fc sinceSuccess_invalid)
  next
    case False
    then show ?thesis
      by (simp add: fc spec_failCount_def sinceSuccess_spec [OF False])
  qed
  with analyzeBackups_lastSuccess_None [of parseDate now rows] show ?thesis by blast
qed

theorem failcount_since_success_witness:
  "failCount (analyzeBackups exampleDates 0
      (Some [[''TimeCreated'' \<mapsto> ''1970-01-01T00:00:00Z'', ''Message'' \<mapsto> ''Backup error''],
             [''TimeCreated'' \<mapsto> ''1970-01-02T00:00:00Z'', ''Message'' \<mapsto> ''Job succeeded''],
             [''TimeCreated'' \<mapsto> ''1970-01-03T00:00:00Z'', ''Message'' \<mapsto> ''Backup FAILED''],
             [''Message'' \<mapsto> ''Backup failed'']])) = 1
   \<and> failCount (analyzeBackups exampleDates 0
      (Some [[''TimeCreated'' \<mapsto> ''1970-01-01T00:00:00Z'', ''Message'' \<mapsto> ''Backup error''],
             [''Message'' \<mapsto> ''Backup failed'']])) = 2"
proof -
  let ?a = "[[''TimeCreated'' \<mapsto> ''1970-01-01T00:00:00Z'', ''Message'' \<mapsto> ''Backup error''],
             [''TimeCreated'' \<mapsto> ''1970-01-02T00:00:00Z'', ''Message'' \<mapsto> ''Job succeeded''],
             [''TimeCreated'' \<mapsto> ''1970-01-03T00:00:00Z'', ''Message'' \<mapsto> ''Backup FAILED''],
             [''Message'' \<mapsto> ''Backup failed'']]"
  let ?b = "[[''TimeCreated'' \<mapsto> ''1970-01-01T00:00:00Z'', ''Message'' \<mapsto> ''Backup error''],
             [''Message'' \<mapsto> ''Backup failed'']]"
  have la: "lastSuccess (analyzeBackups exampleDates 0 (Some ?a)) = Some (Some 86400000)"
    by code_simp
  have lb: "lastSuccess (analyzeBackups exampleDates 0 (Some ?b)) = None"
    by code_simp
  have sa: "spec_failCount (Some (Some 86400000)) (map (cleanRowOf exampleDates) ?a) = 1"
    by code_simp
  have sb: "spec_failCount None (map (cleanRowOf exampleDates) ?b) = 2"
    by code_simp
  from failcount_since_success [of exampleDates 0 ?a] la sa
  have "failCount (analyzeBackups exampleDates 0 (Some ?a)) = 1" by simp
  moreover from failcount_since_success [of exampleDates 0 ?b] lb sb
  have "failCount (analyzeBackups exampleDates 0 (Some ?b)) = 2" by simp
  ultimately show ?thesis ..
qed

text \<open>
  C10. For a non-empty array the gap is \<^verbatim>\<open>NaN\<close> exactly when the most recent log date
  or the success date is an invalid date, and then the status is \<open>PASS\<close>. In particular
  the status is \<open>PASS\<close> when no record has a parseable timestamp.
\<close>

theorem backup_nan_gap_pass:
  "(gap (analyzeBackups parseDate now (Some (r # rs))) = None \<longleftrightarrow>
      latestLog (analyzeBackups parseDate now (Some (r # rs))) = Some None
      \<or> lastSuccess (analyzeBackups parseDate now (Some (r # rs))) = Some None)
   \<and> (gap (analyzeBackups parseDate now (Some (r # rs))) = None \<longrightarrow>
        status (analyzeBackups parseDate now (Some (r # rs))) = PASS)
   \<and> ((\<forall>c\<in>set (map (cleanRowOf parseDate) (r # rs)). date c = None) \<longrightarrow>
        status (analyzeBackups parseDate now (Some (r # rs))) = PASS)"
proof -
  define v where "v = analyzeBackups parseDate now (Some (r # rs))"
  define cs where "cs = map (cleanRowOf parseDate) (r # rs)"
  have ne: "r # rs \<noteq> []" by simp
  have g: "gap v = None \<longleftrightarrow> latestLog v = Some None \<or> lastSuccess v = Some None"
    unfolding v_def by (rule analyzeBackups_gap_None [OF ne])
  have p: "status v = PASS" if "gap v = None"
    using that unfolding v_def
    by (simp add: analyzeBackups_status [of _ _ "r # rs"] num_gt_def)
  have q: "status v = PASS" if a: "\<forall>c\<in>set cs. date c = None"
  proof -
    from analyzeBackups_latestLog_mem [OF ne, of parseDate now]
    obtain c where c: "c \<in> set cs" and l: "latestLog v = Some (date c)"
      unfolding v_def cs_def ..
    from a c have "date c = None" by (rule bspec)
    with l have "latestLog v = Some None" by simp
    with g have "gap v = None" by simp
    then show ?thesis by (rule p)
  qed
  from g p q have "(gap v = None \<longleftrightarrow> latestLog v = Some None \<or> lastSuccess v = Some None)
      \<and> (gap v = None \<longrightarrow> status v = PASS)
      \<and> ((\<forall>c\<in>set cs. date c = None) \<longrightarrow> status v = PASS)"
    by blast
  then show ?thesis unfolding v_def cs_def .
qed

theorem backup_nan_gap_pass_witness:
  "gap (analyzeBackups exampleDates 0
      (Some [[''TimeCreated'' \<mapsto> ''yesterday'', ''Message'' \<mapsto> ''Backup failed'']])) = None
   \<and> status (analyzeBackups exampleDates 0
      (Some [[''TimeCreated'' \<mapsto> ''yesterday'', ''Message'' \<mapsto> ''Backup failed'']])) = PASS"
proof -
  have g: "gap (analyzeBackups exampleDates 0
      (Some [[''TimeCreated'' \<mapsto> ''yesterday'', ''Message'' \<mapsto> ''Backup failed'']])) = None"
    by code_simp
  note backup_nan_gap_pass
    [of exampleDates 0 "[''TimeCreated'' \<mapsto> ''yesterday'', ''Message'' \<mapsto> ''Backup failed'']" "[]",
     THEN conjunct2, THEN conjunct1, rule_format, OF g]
  with g show ?thesis ..
qed

section \<open>Empty inputs\<close>

text \<open>
  C8. On the empty array, and on \<^verbatim>\<open>null\<close>, the SQL and the AD classifier return the risk
  \<open>UNKNOWN\<close> with no findings and the backup classifier returns the status \<open>UNKNOWN\<close>; the
  overall severity of three such verdicts is \<open>LOW\<close>.
\<close>

theorem empty_inputs:
  "analyzeSQL (Some []) = \<lparr>risk = UNKNOWN, findings = []\<rparr>
   \<and> analyzeAD (Some []) = \<lparr>risk = UNKNOWN, findings = []\<rparr>
   \<and> analyzeBackups parseDate now (Some []) =
       \<lparr>status = UNKNOWN_STATUS, gap = Some 0, lastSuccess = None, latestLog = None,
        failCount = 0\<rparr>
   \<and> analyzeSQL None = \<lparr>risk = UNKNOWN, findings = []\<rparr>
   \<and> analyzeAD None = \<lparr>risk = UNKNOWN, findings = []\<rparr>
   \<and> status (analyzeBackups parseDate now None) = UNKNOWN_STATUS
   \<and> overallRisk UNKNOWN UNKNOWN UNKNOWN_STATUS = LOW
   \<and> overall (runAudit parseDate now (Some []) (Some []) (Some [])) = LOW
   \<and> overall (runAudit parseDate now None None None) = LOW"
  by (simp add: analyzeSQL_def analyzeAD_def analyzeBackups_def overallRisk_def runAudit_def
      Let_def)

theorem empty_inputs_witness:
  "risk (analyzeSQL (Some [])) = UNKNOWN \<and> risk (analyzeAD (Some [])) = UNKNOWN
   \<and> status (analyzeBackups exampleDates 0 (Some [])) = UNKNOWN_STATUS
   \<and> overall (runAudit exampleDates 0 (Some []) (Some []) (Some [])) = LOW"
  using empty_inputs [of exampleDates 0] by simp

section \<open>Properties of the remediation plan\<close>

lemma analyzeAD_findings_risk:
  "findings (analyzeAD data) \<noteq> [] \<Longrightarrow> risk (analyzeAD data) = CRITICAL"
proof (cases data)
  case None
  assume "findings (analyzeAD data) \<noteq> []"
  with None show ?thesis by (simp add: analyzeAD_None)
next
  case (Some rows)
  assume "findings (analyzeAD data) \<noteq> []"
  with Some have "filter adMatches rows \<noteq> []" by (simp add: analyzeAD_Some)
  then have "\<exists>r\<in>set rows. adMatches r" by (simp add: filter_empty_conv)
  then show ?thesis using Some by (auto simp add: analyzeAD_Some)
qed

lemma overallRisk_not_CRITICAL:
  "overallRisk s a b \<noteq> CRITICAL \<Longrightarrow> a \<noteq> CRITICAL \<and> b \<noteq> FAIL"
  by (auto simp add: overallRisk_def)

lemma remediationPlanTxt_eq:
  "remediationPlanTxt rep =
     (if status (backup rep) = FAIL then
        if findings (ad rep) \<noteq> [] then
          if findings (sql rep) \<noteq> [] then
            [(1, ''EMERGENCY BACKUP RUN''), (2, ''LOCK DOWN ADMIN ACCOUNTS''),
             (3, ''DATABASE INTEGRITY CHECKS'')]
          else [(1, ''EMERGENCY BACKUP RUN''), (2, ''LOCK DOWN ADMIN ACCOUNTS'')]
        else if findings (sql rep) \<noteq> [] then
          [(1, ''EMERGENCY BACKUP RUN''), (2, ''DATABASE INTEGRITY CHECKS'')]
        else [(1, ''EMERGENCY BACKUP RUN'')]
      else if findings (ad rep) \<noteq> [] then
        if findings (sql rep) \<noteq> [] then
          [(1, ''LOCK DOWN ADMIN ACCOUNTS''), (2, ''DATABASE INTEGRITY CHECKS'')]
        else [(1, ''LOCK DOWN ADMIN ACCOUNTS'')]
      else if findings (sql rep) \<noteq> [] then [(1, ''DATABASE INTEGRITY CHECKS'')]
      else [])"
  by (simp add: remediationPlanTxt_def)

text \<open>
  C9, as the claim words it, fails: the fallback item does not replace the other items.
  A single SQL row of priority 10 with an ordinary finding gives the overall severity
  \<open>MEDIUM\<close>, and the panel lists the SQL item followed by the fallback item; the text
  export lists the SQL item and has no fallback item.
\<close>

theorem plan_fallback_counterexample:
  "overall (runAudit exampleDates 0
      (Some [[''Priority'' \<mapsto> ''10'', ''Finding'' \<mapsto> ''Auto-shrink enabled'']]) None None) = MEDIUM
   \<and> immediateActions (runAudit exampleDates 0
      (Some [[''Priority'' \<mapsto> ''10'', ''Finding'' \<mapsto> ''Auto-shrink enabled'']]) None None)
     = [''Run DBCC CHECKDB & Log Audits'', ''Schedule Quarterly Review'']
   \<and> spec_plan (runAudit exampleDates 0
      (Some [[''Priority'' \<mapsto> ''10'', ''Finding'' \<mapsto> ''Auto-shrink enabled'']]) None None)
     = [''Schedule Quarterly Review'']
   \<and> remediationPlanTxt (runAudit exampleDates 0
      (Some [[''Priority'' \<mapsto> ''10'', ''Finding'' \<mapsto> ''Auto-shrink enabled'']]) None None)
     = [(1, ''DATABASE INTEGRITY CHECKS'')]"
  by code_simp

text \<open>
  C9, amended. The panel lists, in this order, the backup item when the backup status is
  \<open>FAIL\<close>, the AD item when there are AD findings, the SQL item when there are SQL
  findings, and the fallback item when the overall severity is not \<open>CRITICAL\<close>: the
  fallback item is added after the others. For a report of \<^verbatim>\<open>runAudit\<close> whose overall
  severity is not \<open>CRITICAL\<close> this leaves the SQL item, if there are SQL findings, and the
  fallback item. The text export lists the first three items under the same conditions in
  the same order, numbered from 1, and has no fallback item.
\<close>

theorem remediation_plan:
  "immediateActions rep =
       (if status (backup rep) = FAIL then [''Emergency Backup Run''] else [])
     @ (if findings (ad rep) \<noteq> [] then [''Lock Down Admin Accounts''] else [])
     @ (if findings (sql rep) \<noteq> [] then [''Run DBCC CHECKDB & Log Audits''] else [])
     @ (if overall rep \<noteq> CRITICAL then [''Schedule Quarterly Review''] else [])
   \<and> (overall (runAudit parseDate now sqlData adData backupData) \<noteq> CRITICAL \<longrightarrow>
        immediateActions (runAudit parseDate now sqlData adData backupData) =
          (if findings (analyzeSQL sqlData) \<noteq> [] then [''Run DBCC CHECKDB & Log Audits'']
           else [])
          @ [''Schedule Quarterly Review''])
   \<and> map snd (remediationPlanTxt rep) =
       (if status (backup rep) = FAIL then [''EMERGENCY BACKUP RUN''] else [])
     @ (if findings (ad rep) \<noteq> [] then [''LOCK DOWN ADMIN ACCOUNTS''] else [])
     @ (if findings (sql rep) \<noteq> [] then [''DATABASE INTEGRITY CHECKS''] else [])
   \<and> map fst (remediationPlanTxt rep) = [1 ..< Suc (length (remediationPlanTxt rep))]"
proof -
  have a: "immediateActions rep =
       (if status (backup rep) = FAIL then [''Emergency Backup Run''] else [])
     @ (if findings (ad rep) \<noteq> [] then [''Lock Down Admin Accounts''] else [])
     @ (if findings (sql rep) \<noteq> [] then [''Run DBCC CHECKDB & Log Audits''] else [])
     @ (if overall rep \<noteq> CRITICAL then [''Schedule Quarterly Review''] else [])"
    by (simp add: immediateActions_def)
  have b: "immediateActions (runAudit parseDate now sqlData adData backupData) =
          (if findings (analyzeSQL sqlData) \<noteq> [] then [''Run DBCC CHECKDB & Log Audits'']
           else [])
          @ [''Schedule Quarterly Review'']"
    if nc: "overall (runAudit parseDate now sqlData adData backupData) \<noteq> CRITICAL"
  proof -
    from nc have "overallRisk (risk (analyzeSQL sqlData)) (risk (analyzeAD adData))
        (status (analyzeBackups parseDate now backupData)) \<noteq> CRITICAL"
      by (simp add: runAudit_def Let_def)
    then have "risk (analyzeAD adData) \<noteq> CRITICAL"
      and st: "status (analyzeBackups parseDate now backupData) \<noteq> FAIL"
      by (auto dest: overallRisk_not_CRITICAL)
    then have "findings (analyzeAD adData) = []"
      using analyzeAD_findings_risk by blast
    with st nc show ?thesis
      by (simp add: immediateActions_def runAudit_def Let_def)
  qed
  have c: "map snd (remediationPlanTxt rep) =
       (if status (backup rep) = FAIL then [''EMERGENCY BACKUP RUN''] else [])
     @ (if findings (ad rep) \<noteq> [] then [''LOCK DOWN ADMIN ACCOUNTS''] else [])
     @ (if findings (sql rep) \<noteq> [] then [''DATABASE INTEGRITY CHECKS''] else [])"
    by (simp add: remediationPlanTxt_eq)
  have d: "map fst (remediationPlanTxt rep) = [1 ..< Suc (length (remediationPlanTxt rep))]"
    by (simp add: remediationPlanTxt_eq upt_rec)
  from a b c d show ?thesis by blast
qed

theorem remediation_plan_witness:
  "overall (runAudit exampleDates 0
      (Some [[''Priority'' \<mapsto> ''10'', ''Finding'' \<mapsto> ''Auto-shrink enabled'']]) None None)
     \<noteq> CRITICAL
   \<and> immediateActions (runAudit exampleDates 0
      (Some [[''Priority'' \<mapsto> ''10'', ''Finding'' \<mapsto> ''Auto-shrink enabled'']]) None None)
     = [''Run DBCC CHECKDB & Log Audits'', ''Schedule Quarterly Review'']"
proof -
  let ?sd = "Some [[''Priority'' \<mapsto> ''10'', ''Finding'' \<mapsto> ''Auto-shrink enabled'']]"
  have o: "overall (runAudit exampleDates 0 ?sd None None) \<noteq> CRITICAL"
    by code_simp
  have f: "findings (analyzeSQL ?sd) \<noteq> []"
    by code_simp
  note remediation_plan [where parseDate = exampleDates and now = 0 and sqlData = ?sd
      and adData = None and backupData = None, THEN conjunct2, THEN conjunct1, rule_format, OF o]
  with o f show ?thesis by simp
qed

section \<open>Exceptions and the shape of the verdicts\<close>

lemma sqlRow_single:
  "f \<in> set (snd (sqlRow (LOW, []) r)) \<Longrightarrow>
     sqlActionable r
     \<and> ftype f = (if sqlNoBackups r then CRITICAL else if sqlCorruption r then HIGH else MEDIUM)"
  by (simp add: sqlRow_def Let_def sqlActionable_def sqlNoBackups_def sqlCorruption_def
      split: if_splits)

lemma wf_analyzeSQL: "wf_verdict (analyzeSQL data)"
proof (cases data)
  case None
  then show ?thesis by (simp add: analyzeSQL_None wf_verdict_def)
next
  case (Some rows)
  have "ftype f \<in> {MEDIUM, HIGH, CRITICAL}
        \<and> sevRank (ftype f) \<le> sevRank (risk (analyzeSQL (Some rows)))"
    if "f \<in> set (findings (analyzeSQL (Some rows)))" for f
  proof -
    from that obtain r where r: "r \<in> set rows" and f: "f \<in> set (snd (sqlRow (LOW, []) r))"
      by (auto simp add: analyzeSQL_findings)
    from sqlRow_single [OF f] have act: "sqlActionable r"
      and ty: "ftype f = (if sqlNoBackups r then CRITICAL else if sqlCorruption r then HIGH else MEDIUM)"
      by simp_all
    from r have ne: "rows \<noteq> []" by auto
    show ?thesis
    proof (cases "sqlNoBackups r")
      case True
      with r act have "\<exists>r\<in>set rows. sqlActionable r \<and> sqlNoBackups r" by blast
      with ne True ty show ?thesis by (simp add: analyzeSQL_risk sevRank_def)
    next
      case nb: False
      show ?thesis
      proof (cases "sqlCorruption r")
        case True
        with r act have "\<exists>r\<in>set rows. sqlActionable r \<and> sqlCorruption r" by blast
        with ne nb True ty show ?thesis by (simp add: analyzeSQL_risk sevRank_def)
      next
        case False
        from r act have "\<exists>r\<in>set rows. sqlActionable r" by blast
        with ne nb False ty show ?thesis by (simp add: analyzeSQL_risk sevRank_def)
      qed
    qed
  qed
  moreover have "findings (analyzeSQL (Some rows)) = []" if "risk (analyzeSQL (Some rows)) = UNKNOWN"
  proof -
    from that have "rows = []" by (simp add: analyzeSQL_risk split: if_splits)
    then show ?thesis by (simp add: analyzeSQL_findings)
  qed
  ultimately show ?thesis using Some by (simp add: wf_verdict_def)
qed

lemma wf_analyzeAD: "wf_verdict (analyzeAD data)"
proof (cases data)
  case None
  then show ?thesis by (simp add: analyzeAD_None wf_verdict_def)
next
  case (Some rows)
  show ?thesis unfolding Some
    by (auto simp add: wf_verdict_def analyzeAD_Some adFinding_def sevRank_def)
qed

lemma parseInt_999: "parseInt ''999'' = Some 999"
  by code_simp

lemma sqlRow_NaN_priority:
  assumes "parseInt p = None"
  shows "sqlRow st (r(''Priority'' \<mapsto> p)) = st"
proof -
  have "sqlPriority (r(''Priority'' \<mapsto> p)) = (if p = [] then Some 999 else None)"
    using assms by (simp add: sqlPriority_def orElse_def parseInt_999)
  then have "\<not> num_le (sqlPriority (r(''Priority'' \<mapsto> p))) 50"
    by (simp add: num_le_def)
  then show ?thesis by (simp add: sqlRow_def Let_def)
qed

lemma sqlRow_empty: "sqlRow st Map.empty = st"
proof -
  have "\<not> num_le (sqlPriority Map.empty) 50"
    by (simp add: sqlPriority_def orElse_def parseInt_999 num_le_def)
  then show ?thesis by (simp add: sqlRow_def Let_def)
qed

lemma adRow_empty: "adRow st Map.empty = st"
  by (simp add: adRow_def Let_def adGroup_def orElse_def toLowerCase_def)

lemma thenE_Inr: "thenE (Inr v) f = f v"
  by (simp add: thenE_def)

lemma thenE_Inl: "thenE (Inl e) f = Inl e"
  by (simp add: thenE_def)

lemma deref_Some: "deref (Some v) = Inr v"
  by (simp add: deref_def)

lemma getProp_Some: "getProp (Some r) k = Inr (r k)"
  by (simp add: getProp_def deref_def thenE_def)

lemma getProp_None: "getProp None k = Inl TypeError"
  by (simp add: getProp_def deref_def thenE_def)

lemma js_or_default: "js_or x (Some d) = Some (orElse x d)"
  by (simp add: js_or_def orElse_def split: option.splits)

lemma toLowerCaseE_Some: "toLowerCaseE (Some s) = Inr (toLowerCase s)"
  by (simp add: toLowerCaseE_def deref_def thenE_def)

lemma template_Some: "template (Some s) = s"
  by (simp add: template_def)

lemma noData_None: "noData None = Inr True"
  by (simp add: noData_def)

lemma noData_Some: "noData (Some xs) = Inr (xs = [])"
  by (simp add: noData_def deref_def thenE_def)

lemma forEachE_Some:
  assumes "\<And>s r. f s (Some r) = Inr (g s r)"
  shows "forEachE f s (map Some rows) = Inr (foldl g s rows)"
  by (induction rows arbitrary: s) (simp_all add: assms thenE_Inr)

lemma mapE_Some:
  assumes "\<And>r. f (Some r) = Inr (g r)"
  shows "mapE f (map Some rows) = Inr (map g rows)"
  by (induction rows) (simp_all add: assms thenE_Inr)

lemma sqlRowE_Some: "sqlRowE st (Some r) = Inr (sqlRow st r)"
  by (simp add: sqlRowE_def sqlRow_def getProp_Some thenE_Inr js_or_default toLowerCaseE_Some
      template_Some sqlPriority_def sqlFindingText_def Let_def)

lemma adRowE_Some: "adRowE st (Some r) = Inr (adRow st r)"
  by (simp add: adRowE_def adRow_def getProp_Some thenE_Inr js_or_default toLowerCaseE_Some
      adGroup_def adCombinedSearch_def adFinding_def Let_def)

lemma cleanRowE_Some: "cleanRowE pd (Some r) = Inr (cleanRowOf pd r)"
  by (simp add: cleanRowE_def cleanRowOf_def getProp_Some thenE_Inr js_or_default
      toLowerCaseE_Some deref_def newDate_def Let_def)

lemma analyzeSQLE_typed: "analyzeSQLE (map_option (map Some) data) = Inr (analyzeSQL data)"
proof (cases data)
  case None
  then show ?thesis by (simp add: analyzeSQLE_def analyzeSQL_def noData_None thenE_Inr)
next
  case (Some rows)
  have "forEachE sqlRowE (LOW, []) (map Some rows) = Inr (foldl sqlRow (LOW, []) rows)"
    by (rule forEachE_Some) (rule sqlRowE_Some)
  then show ?thesis
    by (simp add: Some analyzeSQLE_def analyzeSQL_def noData_Some thenE_Inr deref_def Let_def)
qed

lemma analyzeADE_typed: "analyzeADE (map_option (map Some) data) = Inr (analyzeAD data)"
proof (cases data)
  case None
  then show ?thesis by (simp add: analyzeADE_def analyzeAD_def noData_None thenE_Inr)
next
  case (Some rows)
  have "forEachE adRowE (LOW, []) (map Some rows) = Inr (foldl adRow (LOW, []) rows)"
    by (rule forEachE_Some) (rule adRowE_Some)
  then show ?thesis
    by (simp add: Some analyzeADE_def analyzeAD_def noData_Some thenE_Inr deref_def Let_def)
qed

lemma latestLogE:
  "(if length cd > 0 then thenE (deref (nthOpt cd 0)) (\<lambda>c. Inr (Some (date c))) else Inr None)
     = Inr (case cd of [] \<Rightarrow> None | c # _ \<Rightarrow> Some (date c))"
  by (cases cd) (simp_all add: nthOpt_def deref_def thenE_def)

lemma lastSuccessE:
  "(if sr \<noteq> None then thenE (deref sr) (\<lambda>c. Inr (Some (date c))) else Inr None)
     = Inr (case sr of None \<Rightarrow> None | Some c \<Rightarrow> Some (date c))"
  by (cases sr) (simp_all add: deref_def thenE_def)

lemma analyzeBackupsE_typed:
  "analyzeBackupsE pd now (map_option (map Some) data) = Inr (analyzeBackups pd now data)"
proof (cases data)
  case None
  then show ?thesis by (simp add: analyzeBackupsE_def analyzeBackups_def noData_None thenE_Inr)
next
  case (Some rows)
  have m: "mapE (cleanRowE pd) (map Some rows) = Inr (map (cleanRowOf pd) rows)"
    by (rule mapE_Some) (rule cleanRowE_Some)
  show ?thesis
  proof (cases "rows = []")
    case True
    with Some show ?thesis
      by (simp add: analyzeBackupsE_def analyzeBackups_def noData_Some thenE_Inr)
  next
    case False
    have ne: "(map Some rows = []) = False" using False by simp
    have "analyzeBackupsE pd now (Some (map Some rows)) = Inr (analyzeBackups pd now (Some rows))"
      by (simp only: analyzeBackupsE_def noData_Some ne thenE_Inr if_False deref_Some
            m Let_def latestLogE lastSuccessE)
         (simp add: analyzeBackups_def Let_def False)
    with Some show ?thesis by simp
  qed
qed

lemma analyzeBackups_lastSuccess_mem:
  assumes "lastSuccess (analyzeBackups pd now (Some rows)) = Some d"
  shows "\<exists>c\<in>set (map (cleanRowOf pd) rows). d = date c"
proof -
  let ?cd = "js_sort (\<lambda>a b. num_sub (date b) (date a)) (map (cleanRowOf pd) rows)"
  from assms obtain c where f: "find isSuccess ?cd = Some c" and d: "d = date c"
    by (auto simp add: analyzeBackups_lastSuccess split: option.splits)
  from f have "c \<in> set ?cd"
    by (auto simp add: find_Some_iff)
  then have "c \<in> set (map (cleanRowOf pd) rows)"
    by (simp only: set_js_sort)
  with d show ?thesis by blast
qed

lemma wf_analyzeBackups_valid:
  assumes "\<forall>c\<in>set (map (cleanRowOf pd) rows). date c \<noteq> None"
  shows "wf_backupVerdict (analyzeBackups pd now (Some rows))"
proof (cases "rows = []")
  case True
  then show ?thesis by (simp add: analyzeBackups_Nil wf_backupVerdict_def)
next
  case False
  define v where "v = analyzeBackups pd now (Some rows)"
  define cs where "cs = map (cleanRowOf pd) rows"
  from assms have a: "\<forall>c\<in>set cs. date c \<noteq> None" unfolding cs_def .
  from analyzeBackups_latestLog_mem [OF False, of pd now]
  obtain c where "c \<in> set cs" and "latestLog v = Some (date c)"
    unfolding v_def cs_def ..
  with a have ll: "latestLog v \<noteq> Some None" by auto
  have ls: "lastSuccess v \<noteq> Some None"
  proof
    assume "lastSuccess v = Some None"
    from analyzeBackups_lastSuccess_mem [OF this [unfolded v_def]]
    obtain c where "c \<in> set cs" and "None = date c" unfolding cs_def ..
    with a show False by auto
  qed
  have "gap v \<noteq> None"
    using analyzeBackups_gap_None [OF False, of pd now] ll ls unfolding v_def by simp
  with ll ls show ?thesis unfolding v_def by (simp add: wf_backupVerdict_def)
qed

lemma error_TypeError: "(e :: error) = TypeError"
  by (cases e) simp

lemma forEachE_None:
  assumes "\<And>s. f s None = Inl TypeError" and "None \<in> set xs"
  shows "forEachE f s xs = Inl TypeError"
  using assms(2)
proof (induction xs arbitrary: s)
  case Nil
  then show ?case by simp
next
  case (Cons x xs)
  show ?case
  proof (cases "f s x")
    case (Inl e)
    then have "f s x = Inl TypeError" by (simp only: error_TypeError [of e])
    then show ?thesis by (simp add: thenE_Inl)
  next
    case (Inr s')
    have "x \<noteq> None"
    proof
      assume "x = None"
      with Inr assms(1) [of s] show False by simp
    qed
    with Cons.prems have "None \<in> set xs" by auto
    then have "forEachE f s' xs = Inl TypeError" by (rule Cons.IH)
    with Inr show ?thesis by (simp add: thenE_Inr)
  qed
qed

lemma mapE_None:
  assumes "f None = Inl TypeError" and "None \<in> set xs"
  shows "mapE f xs = Inl TypeError"
  using assms(2)
proof (induction xs)
  case Nil
  then show ?case by simp
next
  case (Cons x xs)
  show ?case
  proof (cases "f x")
    case (Inl e)
    then have "f x = Inl TypeError" by (simp only: error_TypeError [of e])
    then show ?thesis by (simp add: thenE_Inl)
  next
    case (Inr y)
    have "x \<noteq> None"
    proof
      assume "x = None"
      with Inr assms(1) show False by simp
    qed
    with Cons.prems have "None \<in> set xs" by auto
    then have "mapE f xs = Inl TypeError" by (rule Cons.IH)
    with Inr show ?thesis by (simp add: thenE_Inr thenE_Inl)
  qed
qed

lemma sqlRowE_None: "sqlRowE st None = Inl TypeError"
  by (simp add: sqlRowE_def getProp_None thenE_Inl)

lemma adRowE_None: "adRowE st None = Inl TypeError"
  by (simp add: adRowE_def getProp_None thenE_Inl)

lemma cleanRowE_None: "cleanRowE pd None = Inl TypeError"
  by (simp add: cleanRowE_def getProp_None thenE_Inl)

lemma classifiers_throw:
  assumes "None \<in> set xs"
  shows "analyzeSQLE (Some xs) = Inl TypeError \<and> analyzeADE (Some xs) = Inl TypeError
       \<and> analyzeBackupsE pd now (Some xs) = Inl TypeError"
proof -
  from assms have ne: "(xs = []) = False" by auto
  have "forEachE sqlRowE (LOW, []) xs = Inl TypeError"
    using sqlRowE_None assms by (rule forEachE_None)
  then have "analyzeSQLE (Some xs) = Inl TypeError"
    by (simp add: analyzeSQLE_def noData_Some ne thenE_Inr thenE_Inl deref_Some)
  moreover have "forEachE adRowE (LOW, []) xs = Inl TypeError"
    using adRowE_None assms by (rule forEachE_None)
  then have "analyzeADE (Some xs) = Inl TypeError"
    by (simp add: analyzeADE_def noData_Some ne thenE_Inr thenE_Inl deref_Some)
  moreover have "mapE (cleanRowE pd) xs = Inl TypeError"
    using cleanRowE_None assms by (rule mapE_None)
  then have "analyzeBackupsE pd now (Some xs) = Inl TypeError"
    by (simp add: analyzeBackupsE_def noData_Some ne thenE_Inr thenE_Inl deref_Some)
  ultimately show ?thesis by simp
qed

text \<open>
  C7, as the claim words it, fails in both of its parts. On the array whose only element
  is \<^verbatim>\<open>null\<close> each classifier throws a \<^verbatim>\<open>TypeError\<close>, at the first property it reads of
  the element. On a single record without a timestamp the backup classifier returns a
  verdict whose most recent log date is an invalid date and whose hours are \<^verbatim>\<open>NaN\<close>,
  which is not a verdict of the declared shape.
\<close>

theorem classifiers_total_counterexample:
  "analyzeSQLE (Some [None]) = Inl TypeError
   \<and> analyzeADE (Some [None]) = Inl TypeError
   \<and> analyzeBackupsE exampleDates 0 (Some [None]) = Inl TypeError
   \<and> latestLog (analyzeBackups exampleDates 0 (Some [[''Message'' \<mapsto> ''Backup failed'']]))
       = Some None
   \<and> gap (analyzeBackups exampleDates 0 (Some [[''Message'' \<mapsto> ''Backup failed'']])) = None
   \<and> \<not> wf_backupVerdict
         (analyzeBackups exampleDates 0 (Some [[''Message'' \<mapsto> ''Backup failed'']]))"
  by code_simp

text \<open>
  C7, amended. On \<^verbatim>\<open>null\<close>, on the empty array and on every array of rows, whatever
  fields a row lacks and whatever strings its fields hold, no classifier throws: with
  every read that can throw made explicit, each returns the verdict of the functions
  above. The SQL and the AD verdict always have the declared shape. The backup verdict has
  the declared shape for \<^verbatim>\<open>null\<close>, and for an array whenever the timestamp of every record
  parses. A row without any field leaves the state of the SQL and of the AD callback
  unchanged, and so does a row whose \<^verbatim>\<open>Priority\<close> does not parse in the SQL callback.
  On an array with a \<^verbatim>\<open>null\<close> element every classifier throws a \<^verbatim>\<open>TypeError\<close>.
\<close>

theorem classifiers_total:
  "analyzeSQLE (map_option (map Some) data) = Inr (analyzeSQL data)
   \<and> analyzeADE (map_option (map Some) data) = Inr (analyzeAD data)
   \<and> analyzeBackupsE parseDate now (map_option (map Some) data)
       = Inr (analyzeBackups parseDate now data)
   \<and> wf_verdict (analyzeSQL data) \<and> wf_verdict (analyzeAD data)
   \<and> wf_backupVerdict (analyzeBackups parseDate now None)
   \<and> ((\<forall>c\<in>set (map (cleanRowOf parseDate) rows). date c \<noteq> None) \<longrightarrow>
        wf_backupVerdict (analyzeBackups parseDate now (Some rows)))
   \<and> sqlRow st Map.empty = st \<and> adRow st Map.empty = st
   \<and> (parseInt p = None \<longrightarrow> sqlRow st (r(''Priority'' \<mapsto> p)) = st)
   \<and> (None \<in> set xs \<longrightarrow>
        analyzeSQLE (Some xs) = Inl TypeError \<and> analyzeADE (Some xs) = Inl TypeError
        \<and> analyzeBackupsE parseDate now (Some xs) = Inl TypeError)"
proof -
  have "wf_backupVerdict (analyzeBackups parseDate now None)"
    by (simp add: analyzeBackups_None wf_backupVerdict_def)
  with analyzeSQLE_typed analyzeADE_typed analyzeBackupsE_typed wf_analyzeSQL wf_analyzeAD
    wf_analyzeBackups_valid sqlRow_empty adRow_empty sqlRow_NaN_priority
    classifiers_throw [of xs parseDate now]
  show ?thesis by blast
qed

theorem classifiers_total_witness:
  "analyzeSQLE (Some [Some Map.empty,
                      Some [''Priority'' \<mapsto> ''high'', ''Finding'' \<mapsto> ''Backups not performed'']])
     = Inr \<lparr>risk = LOW, findings = []\<rparr>
   \<and> analyzeADE (Some [Some Map.empty, Some [''GroupName'' \<mapsto> ''Domain Admins'']])
     = Inr \<lparr>risk = LOW, findings = []\<rparr>
   \<and> map date (map (cleanRowOf exampleDates)
          [[''TimeCreated'' \<mapsto> ''1970-01-03T00:00:00Z'', ''Message'' \<mapsto> ''Backup failed''],
           [''TimeGenerated'' \<mapsto> ''1970-01-01T00:00:00Z'', ''Message'' \<mapsto> ''Job succeeded'']])
       = [Some 172800000, Some 0]
   \<and> wf_backupVerdict (analyzeBackups exampleDates 0
         (Some [[''TimeCreated'' \<mapsto> ''1970-01-03T00:00:00Z'', ''Message'' \<mapsto> ''Backup failed''],
                [''TimeGenerated'' \<mapsto> ''1970-01-01T00:00:00Z'', ''Message'' \<mapsto> ''Job succeeded'']]))
   \<and> parseInt ''high'' = None
   \<and> sqlRow (LOW, []) [''Priority'' \<mapsto> ''high''] = (LOW, [])
   \<and> analyzeSQLE (Some [Some Map.empty, None]) = Inl TypeError"
proof -
  let ?s = "[Map.empty, [''Priority'' \<mapsto> ''high'', ''Finding'' \<mapsto> ''Backups not performed'']]"
  let ?a = "[Map.empty, [''GroupName'' \<mapsto> ''Domain Admins'']]"
  let ?b = "[[''TimeCreated'' \<mapsto> ''1970-01-03T00:00:00Z'', ''Message'' \<mapsto> ''Backup failed''],
             [''TimeGenerated'' \<mapsto> ''1970-01-01T00:00:00Z'', ''Message'' \<mapsto> ''Job succeeded'']]"
  have s: "analyzeSQL (Some ?s) = \<lparr>risk = LOW, findings = []\<rparr>" by code_simp
  have a: "analyzeAD (Some ?a) = \<lparr>risk = LOW, findings = []\<rparr>" by code_simp
  have h: "\<forall>c\<in>set (map (cleanRowOf exampleDates) ?b). date c \<noteq> None" by code_simp
  have d: "map date (map (cleanRowOf exampleDates) ?b) = [Some 172800000, Some 0]" by code_simp
  have "analyzeSQLE (Some (map Some ?s)) = Inr \<lparr>risk = LOW, findings = []\<rparr>"
    using classifiers_total [where data = "Some ?s", THEN conjunct1] s by simp
  moreover have "analyzeADE (Some (map Some ?a)) = Inr \<lparr>risk = LOW, findings = []\<rparr>"
    using classifiers_total [where data = "Some ?a", THEN conjunct2, THEN conjunct1] a by simp
  moreover have "wf_backupVerdict (analyzeBackups exampleDates 0 (Some ?b))"
    using classifiers_total [where parseDate = exampleDates and now = 0 and rows = ?b,
        THEN conjunct2, THEN conjunct2, THEN conjunct2, THEN conjunct2, THEN conjunct2,
        THEN conjunct2, THEN conjunct1] h by blast
  moreover have n: "parseInt ''high'' = None" by code_simp
  moreover have "sqlRow (LOW, []) [''Priority'' \<mapsto> ''high''] = (LOW, [])"
    using classifiers_total [where p = "''high''" and r = Map.empty and st = "(LOW, [])",
        THEN conjunct2, THEN conjunct2, THEN conjunct2, THEN conjunct2, THEN conjunct2,
        THEN conjunct2, THEN conjunct2, THEN conjunct2, THEN conjunct2, THEN conjunct1]
      n by blast
  moreover have "analyzeSQLE (Some [Some Map.empty, None]) = Inl TypeError"
    using classifiers_total [where xs = "[Some Map.empty, None]",
        THEN conjunct2, THEN conjunct2, THEN conjunct2, THEN conjunct2, THEN conjunct2,
        THEN conjunct2, THEN conjunct2, THEN conjunct2, THEN conjunct2, THEN conjunct2]
    by simp
  ultimately show ?thesis using d by simp
qed

end
